theory Spec2Isabelle
  imports Complex_Main
begin

section \<open>Python text\<close>

text \<open>
  A Python \<open>str\<close> is a sequence of Unicode code points, so text is a list of code points
  here and \<open>length\<close> counts what \<open>len\<close> counts. ASCII literals of the source are
  written with \<open>ascii\<close>. Dictionary keys, which the source only ever writes as ASCII
  literals, are plain strings.
\<close>

type_synonym ustr = "nat list"

definition ascii :: "string \<Rightarrow> ustr" where
  "ascii s = map of_char s"

text \<open>
  \<open>str.isspace\<close>, which is also what \<open>str.strip()\<close> removes and what \<open>\s\<close> matches in
  a \<open>str\<close> pattern.
\<close>

definition isspace :: "nat \<Rightarrow> bool" where
  "isspace c = ((0x9 \<le> c \<and> c \<le> 0xD) \<or> (0x1C \<le> c \<and> c \<le> 0x20) \<or> c = 0x85 \<or> c = 0xA0
     \<or> c = 0x1680 \<or> (0x2000 \<le> c \<and> c \<le> 0x200A) \<or> c = 0x2028 \<or> c = 0x2029
     \<or> c = 0x202F \<or> c = 0x205F \<or> c = 0x3000)"

text \<open>
  The code points \<open>\d\<close> matches in a \<open>str\<close> pattern: the decimal digits of the Unicode
  database (general category Nd, version 14.0.0), as inclusive ranges.
\<close>

definition decimal_ranges :: "(nat \<times> nat) list" where
  "decimal_ranges =
    [(0x30, 0x39), (0x660, 0x669), (0x6F0, 0x6F9), (0x7C0, 0x7C9), (0x966, 0x96F),
     (0x9E6, 0x9EF), (0xA66, 0xA6F), (0xAE6, 0xAEF), (0xB66, 0xB6F), (0xBE6, 0xBEF),
     (0xC66, 0xC6F), (0xCE6, 0xCEF), (0xD66, 0xD6F), (0xDE6, 0xDEF), (0xE50, 0xE59),
     (0xED0, 0xED9), (0xF20, 0xF29), (0x1040, 0x1049), (0x1090, 0x1099), (0x17E0, 0x17E9),
     (0x1810, 0x1819), (0x1946, 0x194F), (0x19D0, 0x19D9), (0x1A80, 0x1A89), (0x1A90, 0x1A99),
     (0x1B50, 0x1B59), (0x1BB0, 0x1BB9), (0x1C40, 0x1C49), (0x1C50, 0x1C59), (0xA620, 0xA629),
     (0xA8D0, 0xA8D9), (0xA900, 0xA909), (0xA9D0, 0xA9D9), (0xA9F0, 0xA9F9), (0xAA50, 0xAA59),
     (0xABF0, 0xABF9), (0xFF10, 0xFF19), (0x104A0, 0x104A9), (0x10D30, 0x10D39),
     (0x11066, 0x1106F), (0x110F0, 0x110F9), (0x11136, 0x1113F), (0x111D0, 0x111D9),
     (0x112F0, 0x112F9), (0x11450, 0x11459), (0x114D0, 0x114D9), (0x11650, 0x11659),
     (0x116C0, 0x116C9), (0x11730, 0x11739), (0x118E0, 0x118E9), (0x11950, 0x11959),
     (0x11C50, 0x11C59), (0x11D50, 0x11D59), (0x11DA0, 0x11DA9), (0x16A60, 0x16A69),
     (0x16AC0, 0x16AC9), (0x16B50, 0x16B59), (0x1D7CE, 0x1D7FF), (0x1E140, 0x1E149),
     (0x1E2F0, 0x1E2F9), (0x1E950, 0x1E959), (0x1FBF0, 0x1FBF9)]"

definition isdecimal :: "nat \<Rightarrow> bool" where
  "isdecimal c = list_ex (\<lambda>(lo, hi). lo \<le> c \<and> c \<le> hi) decimal_ranges"

definition is_upper_az :: "nat \<Rightarrow> bool" where
  "is_upper_az c = (0x41 \<le> c \<and> c \<le> 0x5A)"

definition is_lower_az :: "nat \<Rightarrow> bool" where
  "is_lower_az c = (0x61 \<le> c \<and> c \<le> 0x7A)"

definition lstrip :: "ustr \<Rightarrow> ustr" where
  "lstrip s = dropWhile isspace s"

definition rstrip :: "ustr \<Rightarrow> ustr" where
  "rstrip s = rev (dropWhile isspace (rev s))"

definition strip :: "ustr \<Rightarrow> ustr" where
  "strip s = rstrip (lstrip s)"

text \<open>\<open>s.lstrip(chars)\<close> and \<open>s.rstrip(chars)\<close> with an explicit set of characters.\<close>

definition lstrip_chars :: "nat list \<Rightarrow> ustr \<Rightarrow> ustr" where
  "lstrip_chars cs s = dropWhile (\<lambda>c. c \<in> set cs) s"

definition rstrip_chars :: "nat list \<Rightarrow> ustr \<Rightarrow> ustr" where
  "rstrip_chars cs s = rev (dropWhile (\<lambda>c. c \<in> set cs) (rev s))"

definition startswith :: "ustr \<Rightarrow> ustr \<Rightarrow> bool" where
  "startswith p s = (take (length p) s = p)"

definition endswith :: "ustr \<Rightarrow> ustr \<Rightarrow> bool" where
  "endswith p s = (length p \<le> length s \<and> drop (length s - length p) s = p)"

text \<open>\<open>'\n'.join(parts)\<close>\<close>

fun join_nl :: "ustr list \<Rightarrow> ustr" where
  "join_nl [] = []"
| "join_nl [x] = x"
| "join_nl (x # y # ys) = x @ 0xA # join_nl (y # ys)"

text \<open>\<open>re.sub(r'\s+', ' ', s)\<close>: every maximal run of whitespace becomes one space.\<close>

function collapse_ws :: "ustr \<Rightarrow> ustr" where
  "collapse_ws [] = []"
| "collapse_ws (c # cs) =
     (if isspace c then 0x20 # collapse_ws (dropWhile isspace cs) else c # collapse_ws cs)"
  by pat_completeness auto
termination
  by (relation "measure length") (auto simp: length_dropWhile_le less_Suc_eq_le)

text \<open>
  \<open>re.sub(r'^\s*\d+<marker>', '', s)\<close>, where the marker is the three code points
  U+00E2 U+2020 U+2019 that the source file holds. Without the MULTILINE flag \<open>^\<close>
  matches at the start only, so at most one prefix is removed. No code point is both
  whitespace and a decimal digit, and the marker starts with neither, so the greedy
  match of \<open>\s*\<close> and \<open>\d+\<close> is the only candidate.
\<close>

definition line_number_marker :: ustr where
  "line_number_marker = [0xE2, 0x2020, 0x2019]"

definition sub_line_number :: "ustr \<Rightarrow> ustr" where
  "sub_line_number s =
     (let r = dropWhile isspace s; ds = takeWhile isdecimal r; rest = dropWhile isdecimal r
      in if ds \<noteq> [] \<and> startswith line_number_marker rest
         then drop (length line_number_marker) rest else s)"

section \<open>The message record\<close>

datatype role = Kai | Aletheia | System

text \<open>
  Points in time are counted in microseconds, the resolution of \<open>datetime\<close>; the
  \<open>timestamp\<close> and \<open>imported_at\<close> entries hold the instant whose \<open>isoformat()\<close>
  rendering the source stores. The range of \<open>datetime\<close> (years 1 to 9999) is not
  modelled.
\<close>

type_synonym datetime = int

definition minutes :: "int \<Rightarrow> int" where
  "minutes n = n * 60000000"

definition days :: "int \<Rightarrow> int" where
  "days n = n * 86400000000"

datatype mval = MStr ustr | MInt int | MTime datetime | MBool bool | MNone

type_synonym meta = "string \<rightharpoonup> mval"

record message =
  msg_id :: ustr
  role :: role
  content :: ustr
  timestamp :: datetime
  metadata :: meta

section \<open>conversation\_parser.py\<close>

text \<open>
  What a run reads from outside: the lines \<open>readlines()\<close> yields for a path (\<open>None\<close>
  when opening or reading raises), the clock at the start of \<open>parse_conversation\<close>,
  and the values \<open>datetime.now()\<close> and \<open>uuid.uuid4()\<close> return while the message
  stored at a given position of \<open>self.messages\<close> is built.
\<close>

record parser_env =
  readlines :: "ustr \<Rightarrow> ustr list option"
  now_at_start :: datetime
  now_at_message :: "nat \<Rightarrow> datetime"
  uuid4_at_message :: "nat \<Rightarrow> ustr"
  now_at_save :: datetime
  can_write :: "ustr \<Rightarrow> bool"

record parser =
  file_path :: ustr
  messages :: "message list"
  current_speaker :: "role option"
  message_buffer :: "ustr list"

definition ConversationParser :: "ustr \<Rightarrow> parser" where
  "ConversationParser path =
     \<lparr>file_path = path, messages = [], current_speaker = None, message_buffer = []\<rparr>"

datatype parser_event =
    ErrorReadingFile
  | Usage
  | SavedTo ustr
  | TotalMessages nat
  | ErrorSaving
  | Summary nat nat nat nat
  | NoMessagesParsed

definition read_file :: "parser_env \<Rightarrow> parser \<Rightarrow> ustr list \<times> parser_event list" where
  "read_file env self =
     (case readlines env (file_path self) of
        Some ls \<Rightarrow> (map (rstrip_chars [0xA, 0xD]) ls, [])
      | None \<Rightarrow> ([], [ErrorReadingFile]))"

definition aletheia_patterns :: "ustr list" where
  "aletheia_patterns = map ascii
     [''That's'', ''You're'', ''I am'', ''Thank you'', ''My apologies'',
      ''The'', ''This'', ''Your'', ''It's'', ''What'',
      ''From my perspective'', ''While I don't'', ''If you'',
      ''Aletheia:'', ''You are absolutely'', ''That is a'',
      ''I have'', ''I understand'', ''I'm'']"

text \<open>The last pattern of the list, \<open>^\s*[A-Z][a-z]+:\<close>.\<close>

definition name_colon :: "ustr \<Rightarrow> bool" where
  "name_colon line =
     (case dropWhile isspace line of
        [] \<Rightarrow> False
      | c # cs \<Rightarrow> is_upper_az c \<and> takeWhile is_lower_az cs \<noteq> []
          \<and> (case dropWhile is_lower_az cs of [] \<Rightarrow> False | d # _ \<Rightarrow> d = 0x3A))"

text \<open>
  The method reads the attribute \<open>self.current_speaker\<close>, passed here as the first
  argument. The result \<open>None\<close> is Python's \<open>None\<close>.
\<close>

definition detect_speaker_change :: "role option \<Rightarrow> ustr \<Rightarrow> nat \<Rightarrow> role option" where
  "detect_speaker_change self_current_speaker line0 line_number =
     (if strip line0 = [] then None
      else let line = lstrip_chars [0xFEFF] line0 in
        if strip line \<in> set (map ascii [''Google Search'', ''Same loop'', ''Same loop?''])
          then Some System
        else if startswith (ascii ''More loop?'') (strip line)
             \<or> startswith (ascii ''Did you recieve my message?'') (strip line)
          then Some Kai
        else if list_ex (\<lambda>p. startswith p line) aletheia_patterns \<or> name_colon line
          then Some Aletheia
        else if self_current_speaker = Some Aletheia
             \<and> (startswith (ascii ''   '') line \<or> startswith (ascii ''*'') line
                \<or> startswith (replicate 24 0x20) line)
          then Some Aletheia
        else if length (strip line) < 50
             \<and> (0x3F \<in> set line \<or> endswith (ascii ''.'') (strip line)
                \<or> startswith (ascii ''Hi'') (strip line)
                \<or> startswith (ascii ''No,'') (strip line))
          then Some Kai
        else if line_number = 1 \<or> startswith (ascii ''Hi, how are you?'') (strip line)
          then Some Kai
        else (case self_current_speaker of Some r \<Rightarrow> Some r | None \<Rightarrow> Some Kai))"

definition clean_message :: "ustr \<Rightarrow> ustr" where
  "clean_message message =
     strip (sub_line_number (lstrip_chars [0xFEFF] (collapse_ws (strip message))))"

text \<open>
  The block that appends one message to \<open>self.messages\<close>, written twice in the source
  (inside the loop and after it) with different expressions for the line range.
\<close>

definition append_message ::
  "parser_env \<Rightarrow> datetime \<Rightarrow> role \<Rightarrow> ustr list \<Rightarrow> int \<Rightarrow> int \<Rightarrow> message list \<Rightarrow> message list"
where
  "append_message env base_timestamp speaker current_message line_start line_end msgs =
     (let message_text = clean_message (join_nl current_message) in
      if message_text \<noteq> [] then
        msgs @ [\<lparr>msg_id = uuid4_at_message env (length msgs),
                 role = speaker,
                 content = message_text,
                 timestamp = base_timestamp + minutes (int (length msgs) * 2),
                 metadata = [''source'' \<mapsto> MStr (ascii ''historical_conversation''),
                             ''line_start'' \<mapsto> MInt line_start,
                             ''line_end'' \<mapsto> MInt line_end,
                             ''imported_at'' \<mapsto> MTime (now_at_message env (length msgs))]\<rparr>]
      else msgs)"

text \<open>
  The loop \<open>for i, line in enumerate(lines)\<close>. Its state is the two locals
  \<open>current_message\<close> and \<open>current_speaker\<close> and the attribute \<open>self.messages\<close>.
\<close>

fun parse_loop ::
  "parser_env \<Rightarrow> role option \<Rightarrow> datetime \<Rightarrow> nat \<Rightarrow> ustr list
     \<Rightarrow> ustr list \<Rightarrow> role option \<Rightarrow> message list
     \<Rightarrow> ustr list \<times> role option \<times> message list"
where
  "parse_loop env self_speaker base i [] current_message speaker msgs =
     (current_message, speaker, msgs)"
| "parse_loop env self_speaker base i (line # rest) current_message speaker msgs =
     (if strip line = [] then
        parse_loop env self_speaker base (Suc i) rest current_message speaker msgs
      else
        let detected_speaker = detect_speaker_change self_speaker line (i + 1) in
        if detected_speaker \<noteq> None \<and> detected_speaker \<noteq> speaker then
          parse_loop env self_speaker base (Suc i) rest [line] detected_speaker
            (case speaker of
               Some s \<Rightarrow>
                 if current_message \<noteq> [] then
                   append_message env base s current_message
                     (int i + 1 - int (length current_message)) (int i) msgs
                 else msgs
             | None \<Rightarrow> msgs)
        else
          parse_loop env self_speaker base (Suc i) rest (current_message @ [line]) speaker msgs)"

text \<open>
  \<open>parse_conversation\<close> returns the list it hands back, the parser with its updated
  \<open>messages\<close> attribute, and what was printed.
\<close>

definition parse_conversation ::
  "parser_env \<Rightarrow> parser \<Rightarrow> message list \<times> parser \<times> parser_event list"
where
  "parse_conversation env self =
     (case read_file env self of (lines, out) \<Rightarrow>
        if lines = [] then ([], self, out)
        else
          let base_timestamp = now_at_start env - days 30 in
          case parse_loop env (current_speaker self) base_timestamp 0 lines [] None (messages self)
          of (current_message, speaker, msgs) \<Rightarrow>
            let msgs' =
              (case speaker of
                 Some s \<Rightarrow>
                   if current_message \<noteq> [] then
                     append_message env base_timestamp s current_message
                       (int (length lines) - int (length current_message) + 1)
                       (int (length lines)) msgs
                   else msgs
               | None \<Rightarrow> msgs)
            in (msgs', self\<lparr>messages := msgs'\<rparr>, out))"

record conversation_metadata =
  source_file :: ustr
  total_messages :: nat
  parsing_timestamp :: datetime
  kai_messages :: nat
  aletheia_messages :: nat
  system_messages :: nat

text \<open>The document of \<open>parsed_conversation.json\<close>, the file between parser and uploaders.\<close>

record document =
  conversation_metadata :: conversation_metadata
  doc_messages :: "message list"

definition count_role :: "role \<Rightarrow> message list \<Rightarrow> nat" where
  "count_role r msgs = length (filter (\<lambda>m. role m = r) msgs)"

definition save_parsed_data ::
  "parser_env \<Rightarrow> parser \<Rightarrow> ustr \<Rightarrow> (ustr \<times> document) list \<times> parser_event list"
where
  "save_parsed_data env self output_file =
     (if can_write env output_file then
        ([(output_file,
           \<lparr>conversation_metadata =
              \<lparr>source_file = file_path self,
               total_messages = length (messages self),
               parsing_timestamp = now_at_save env,
               kai_messages = count_role Kai (messages self),
               aletheia_messages = count_role Aletheia (messages self),
               system_messages = count_role System (messages self)\<rparr>,
            doc_messages = messages self\<rparr>)],
         [SavedTo output_file, TotalMessages (length (messages self))])
      else ([], [ErrorSaving]))"

definition print_summary :: "parser \<Rightarrow> parser_event" where
  "print_summary self =
     Summary (length (messages self)) (count_role Kai (messages self))
       (count_role Aletheia (messages self)) (count_role System (messages self))"

text \<open>
  What the process leaves behind: its exit status (0 when \<open>main\<close> returns, the argument
  of \<open>sys.exit\<close> otherwise), what it printed and the files it wrote.
\<close>

record outcome =
  exit_status :: nat
  printed :: "parser_event list"
  files_written :: "(ustr \<times> document) list"

definition conversation_parser_main :: "parser_env \<Rightarrow> ustr list \<Rightarrow> outcome" where
  "conversation_parser_main env argv =
     (if length argv \<noteq> 2 then \<lparr>exit_status = 1, printed = [Usage], files_written = []\<rparr>
      else
        let input_file = argv ! 1;
            output_file = ascii ''parsed_conversation.json'';
            self = ConversationParser input_file
        in case parse_conversation env self of (msgs, self', out) \<Rightarrow>
          if msgs \<noteq> [] then
            (case save_parsed_data env self' output_file of (files, out2) \<Rightarrow>
               \<lparr>exit_status = 0, printed = out @ out2 @ [print_summary self'],
                files_written = files\<rparr>)
          else \<lparr>exit_status = 0, printed = out @ [NoMessagesParsed], files_written = []\<rparr>)"

section \<open>batch\_import\_history.py\<close>

record import_message =
  im_role :: role
  im_content :: ustr
  im_timestamp :: datetime
  externalId :: ustr
  im_metadata :: meta

record import_data =
  data_messages :: "import_message list"
  data_memories :: "unit list"

record import_options =
  platform :: ustr
  dryRun :: bool
  sessionId :: "ustr option"

record batch_payload =
  data :: import_data
  options :: import_options

text \<open>
  The record built for \<open>messages[i]\<close>. \<open>msg.get("metadata", {})\<close> treats a message
  without metadata like one with empty metadata, which is the empty map here; the
  flags written after \<open>**\<close> replace entries of the same name.
\<close>

definition formatted_msg :: "message \<Rightarrow> nat \<Rightarrow> import_message" where
  "formatted_msg msg i =
     \<lparr>im_role = role msg,
      im_content = content msg,
      im_timestamp = timestamp msg,
      externalId = msg_id msg,
      im_metadata = (metadata msg)
        (''historical_import'' \<mapsto> MBool True,
         ''foundational_memory'' \<mapsto> MBool True,
         ''batch_import'' \<mapsto> MBool True,
         ''original_order'' \<mapsto> MInt (int i))\<rparr>"

definition create_batch :: "message list \<Rightarrow> nat \<Rightarrow> nat \<Rightarrow> batch_payload" where
  "create_batch msgs start_idx batch_size =
     (let end_idx = min (start_idx + batch_size) (length msgs) in
      \<lparr>data = \<lparr>data_messages = map (\<lambda>i. formatted_msg (msgs ! i) i) [start_idx..<end_idx],
                data_memories = []\<rparr>,
       options = \<lparr>platform = ascii ''manual'', dryRun = False, sessionId = None\<rparr>\<rparr>)"

text \<open>
  What \<open>requests.post\<close> does: it raises (\<open>RequestFailed\<close>) or returns a response
  with a status code and a body. The body is not JSON, JSON that is no object, or an
  object; the counts an object holds are integers, as the endpoint returns them. They
  may be any integers, negative and large ones too: the scripts check none of them.
  (An integer of more than 4300 digits does not get past \<open>response.json()\<close>, which
  raises ValueError on it; below, a response with such a count meets the same handler
  through the \<open>print\<close> of the count.)
\<close>

datatype body = NotJson | JsonOther | JsonObject "string \<rightharpoonup> int"

text \<open>The exceptions that leave a function of the scripts.\<close>

datatype py_error = KeyError | AttributeError | ValueError | OverflowError

datatype response = RequestFailed | Response nat body

datatype batch_event =
    LoadError
  | Processing nat nat nat nat
  | BatchDone nat nat int int int
  | BatchFailedStatus nat nat nat
  | BatchError nat nat
  | Continuing nat
  | ImportSummary int int
  | SuccessRate
  | SuccessRateNotAvailable

definition get_default :: "(string \<rightharpoonup> int) \<Rightarrow> string \<Rightarrow> int \<Rightarrow> int" where
  "get_default d k v = (case d k of Some x \<Rightarrow> x | None \<Rightarrow> v)"

text \<open>
  Two ways in which integers received from the server make a statement raise, as
  CPython 3.11 has them. Formatting an integer into an f-string raises ValueError when
  the integer has more than \<open>sys.get_int_max_str_digits()\<close> digits, 4300 unless
  configured otherwise. The division \<open>a / b\<close> of two integers gives the float nearest
  to the quotient and raises OverflowError when that is beyond the largest float,
  which is the case from the magnitude \<open>2 ^ 1024 - 2 ^ 970\<close> on; a divisor of 0 does
  not occur where the scripts divide.
\<close>

definition int_max_str_digits :: nat where
  "int_max_str_digits = 4300"

definition unprintable :: "int \<Rightarrow> bool" where
  "unprintable n = (10 ^ int_max_str_digits \<le> abs n)"

definition true_divide_overflows :: "int \<Rightarrow> int \<Rightarrow> bool" where
  "true_divide_overflows a b = ((2 ^ 1024 - 2 ^ 970) * abs b \<le> abs a)"

text \<open>
  \<open>import_batch\<close> with the outcome of its one \<open>requests.post\<close> call as an argument.
  Every exception inside the \<open>try\<close> (the request itself, \<open>response.json()\<close> on a body
  that is not JSON, \<open>.get\<close> on a value that is no object, the \<open>print\<close> of a count
  that cannot be formatted) ends in the same handler.
\<close>

definition import_batch ::
  "response \<Rightarrow> batch_payload \<Rightarrow> nat \<Rightarrow> nat \<Rightarrow> (bool \<times> int \<times> int) \<times> batch_event list"
where
  "import_batch resp batch_data batch_num total_batches =
     (case resp of
        RequestFailed \<Rightarrow>
          ((False, 0, int (length (data_messages (data batch_data)))),
           [BatchError batch_num total_batches])
      | Response status_code b \<Rightarrow>
          if status_code = 200 then
            (case b of
               JsonObject result \<Rightarrow>
                 let success_count = get_default result ''successful'' 0;
                     failed_count = get_default result ''failed'' 0;
                     processed_count = get_default result ''totalProcessed'' 0
                 in if unprintable processed_count \<or> unprintable success_count
                       \<or> unprintable failed_count
                    then ((False, 0, int (length (data_messages (data batch_data)))),
                          [BatchError batch_num total_batches])
                    else ((True, success_count, failed_count),
                          [BatchDone batch_num total_batches processed_count success_count
                             failed_count])
             | _ \<Rightarrow>
                 ((False, 0, int (length (data_messages (data batch_data)))),
                  [BatchError batch_num total_batches]))
          else
            ((False, 0, int (length (data_messages (data batch_data)))),
             [BatchFailedStatus batch_num total_batches status_code]))"

text \<open>
  The state of the loop of \<open>batch_import\<close>: the two running totals, the payloads posted
  so far in order, and the console output.
\<close>

record run =
  total_success :: int
  total_failed :: int
  posted :: "batch_payload list"
  console :: "batch_event list"

text \<open>
  One iteration of \<open>for batch_num in range(1, total_batches + 1)\<close>. \<open>respond k\<close> is the
  outcome of the \<open>k\<close>-th \<open>requests.post\<close> call of the run, counted from 0.
\<close>

definition batch_step ::
  "(nat \<Rightarrow> response) \<Rightarrow> message list \<Rightarrow> nat \<Rightarrow> nat \<Rightarrow> nat \<Rightarrow> run \<Rightarrow> run"
where
  "batch_step respond msgs batch_size total_batches batch_num st =
     (let start_idx = (batch_num - 1) * batch_size;
          batch_start = start_idx + 1;
          batch_end = min (start_idx + batch_size) (length msgs);
          batch_data = create_batch msgs start_idx batch_size
      in case import_batch (respond (length (posted st))) batch_data batch_num total_batches of
        ((success, batch_success, batch_failed), out) \<Rightarrow>
          \<lparr>total_success = total_success st + batch_success,
           total_failed = total_failed st + batch_failed,
           posted = posted st @ [batch_data],
           console = console st @ [Processing batch_num total_batches batch_start batch_end]
             @ out @ (if success then [] else [Continuing batch_num])\<rparr>)"

definition total_batches_of :: "nat \<Rightarrow> nat \<Rightarrow> nat" where
  "total_batches_of n_messages batch_size =
     (n_messages + batch_size - 1) div batch_size"

text \<open>
  The loop for a batch size given as an argument; the source fixes it to 50. A batch
  size of 0 would raise ZeroDivisionError in the source, so every statement below is
  for a positive batch size.
\<close>

definition batch_loop :: "nat \<Rightarrow> (nat \<Rightarrow> response) \<Rightarrow> message list \<Rightarrow> run" where
  "batch_loop batch_size respond msgs =
     (let total_batches = total_batches_of (length msgs) batch_size in
      fold (batch_step respond msgs batch_size total_batches) [1..<total_batches + 1]
        \<lparr>total_success = 0, total_failed = 0, posted = [], console = []\<rparr>)"

text \<open>
  \<open>batch_import\<close>, with what \<open>load_conversation_data\<close> returns as an argument: \<open>None\<close>
  when loading raised, the document otherwise. It returns its boolean, or the
  exception that leaves it, and the state of the run. After the loop it prints the sum
  of the two totals and each total, and, when the sum is positive, computes the
  success rate \<open>(total_success / (total_success + total_failed)) * 100\<close> and prints it;
  none of this is inside a \<open>try\<close>. The value of the rate, a float, is not modelled.
\<close>

definition batch_import ::
  "document option \<Rightarrow> (nat \<Rightarrow> response) \<Rightarrow> (py_error + bool) \<times> run"
where
  "batch_import loaded respond =
     (case loaded of
        None \<Rightarrow>
          (Inr False, \<lparr>total_success = 0, total_failed = 0, posted = [], console = [LoadError]\<rparr>)
      | Some conversation_data \<Rightarrow>
          (let st = batch_loop 50 respond (doc_messages conversation_data);
               processed = total_success st + total_failed st;
               summary = [ImportSummary (total_success st) (total_failed st)]
           in if unprintable processed \<or> unprintable (total_success st)
                 \<or> unprintable (total_failed st)
              then (Inl ValueError, st)
              else if 0 < processed then
                (if true_divide_overflows (total_success st) processed
                 then (Inl OverflowError, st\<lparr>console := console st @ summary\<rparr>)
                 else (Inr (0 < total_success st),
                       st\<lparr>console := console st @ summary @ [SuccessRate]\<rparr>))
              else (Inr (0 < total_success st),
                    st\<lparr>console := console st @ summary @ [SuccessRateNotAvailable]\<rparr>)))"

text \<open>
  The exit status of the script: 0 when \<open>batch_import\<close> returned true, \<open>sys.exit(1)\<close>
  when it returned false, and 1 when an exception left it.
\<close>

definition batch_import_history_main :: "document option \<Rightarrow> (nat \<Rightarrow> response) \<Rightarrow> nat" where
  "batch_import_history_main loaded respond =
     (case fst (batch_import loaded respond) of
        Inr success \<Rightarrow> (if success then 0 else 1)
      | Inl e \<Rightarrow> 1)"

section \<open>import\_conversation.py\<close>

record conversation_options =
  co_platform :: ustr
  co_dryRun :: bool
  idempotencyKey :: "ustr \<times> int"
  co_sessionId :: ustr

text \<open>
  The payload is a dictionary, and which keys it has decides what follows, so it is a
  map from keys to the two kinds of value the source stores in it.
\<close>

datatype payload_value = DataSection import_data | OptionsSection conversation_options

type_synonym import_payload = "string \<rightharpoonup> payload_value"

definition import_message_of :: "message \<Rightarrow> import_message" where
  "import_message_of msg =
     \<lparr>im_role = role msg,
      im_content = content msg,
      im_timestamp = timestamp msg,
      externalId = msg_id msg,
      im_metadata = (metadata msg)
        (''import_source'' \<mapsto> MStr (ascii ''complete_history_migration''),
         ''original_line_start'' \<mapsto> (case metadata msg ''line_start'' of Some v \<Rightarrow> v | None \<Rightarrow> MNone),
         ''original_line_end'' \<mapsto> (case metadata msg ''line_end'' of Some v \<Rightarrow> v | None \<Rightarrow> MNone),
         ''original_timestamp'' \<mapsto> MTime (timestamp msg))\<rparr>"

text \<open>
  \<open>prepare_import_payload\<close>; its first argument is the value of \<open>int(time.time())\<close>,
  which the idempotency key ends with.
\<close>

definition prepare_import_payload :: "int \<Rightarrow> document \<Rightarrow> import_payload" where
  "prepare_import_payload time_time conversation_data =
     (let import_messages =
            map import_message_of (filter (\<lambda>msg. role msg \<noteq> System) (doc_messages conversation_data))
      in [''data'' \<mapsto> DataSection \<lparr>data_messages = import_messages, data_memories = []\<rparr>,
          ''options'' \<mapsto> OptionsSection
             \<lparr>co_platform = ascii ''manual'', co_dryRun = False,
              idempotencyKey = (ascii ''historical_conversation_import_'', time_time),
              co_sessionId = ascii ''historical_migration''\<rparr>])"

text \<open>
  What \<open>session.get\<close> on the status endpoint does: it raises, or returns a response
  with a status code and a body. Of the values inside a JSON object only one thing
  matters to the script: whether a value is itself an object, on which \<open>.get\<close> exists.
\<close>

datatype json_kind = AnObject | NoObject

datatype status_body = StatusNotJson | StatusNoObject | StatusObject "string \<rightharpoonup> json_kind"

datatype status_response = StatusRequestFailed | StatusResponse nat status_body

definition test_connectivity :: "status_response \<Rightarrow> bool" where
  "test_connectivity resp =
     (case resp of
        StatusRequestFailed \<Rightarrow> False
      | StatusResponse status_code b \<Rightarrow> status_code = 200)"

text \<open>
  \<open>import_conversation\<close> returns the payloads it posted and its result: a boolean, or
  the exception that leaves the method. Its handler catches
  \<open>requests.exceptions.RequestException\<close> only, to which the failure of the request
  and of \<open>response.json()\<close> belong; KeyError and AttributeError do not.
\<close>

definition import_conversation ::
  "response \<Rightarrow> import_payload \<Rightarrow> import_payload list \<times> (py_error + bool)"
where
  "import_conversation resp import_payload =
     (case import_payload ''gnosisEntries'' of
        None \<Rightarrow> ([], Inl KeyError)
      | Some entries \<Rightarrow>
          (case resp of
             RequestFailed \<Rightarrow> ([import_payload], Inr False)
           | Response status_code b \<Rightarrow>
               if status_code = 200 then
                 (case b of
                    NotJson \<Rightarrow> ([import_payload], Inr False)
                  | JsonOther \<Rightarrow> ([import_payload], Inl AttributeError)
                  | JsonObject result \<Rightarrow> ([import_payload], Inr True))
               else ([import_payload], Inr False)))"

text \<open>
  \<open>verify_import\<close> catches \<open>requests.exceptions.RequestException\<close> only as well. It calls
  \<open>status.get\<close> on the decoded body and, when the body has the key \<open>instanceMetrics\<close>,
  \<open>metrics.get\<close> on the value there: AttributeError leaves the method when the body or
  that value is no object.
\<close>

definition verify_import :: "status_response \<Rightarrow> py_error + bool" where
  "verify_import resp =
     (case resp of
        StatusRequestFailed \<Rightarrow> Inr False
      | StatusResponse status_code b \<Rightarrow>
          if status_code = 200 then
            (case b of
               StatusNotJson \<Rightarrow> Inr False
             | StatusNoObject \<Rightarrow> Inl AttributeError
             | StatusObject status \<Rightarrow>
                 (case status ''instanceMetrics'' of
                    None \<Rightarrow> Inr True
                  | Some metrics \<Rightarrow>
                      (case metrics of
                         AnObject \<Rightarrow> Inr True
                       | NoObject \<Rightarrow> Inl AttributeError)))
          else Inr False)"

text \<open>
  What a run of the script meets: the outcome of its two status requests and of its
  import request, what loading the conversation file gives, and the clock.
\<close>

record import_env =
  status_before :: status_response
  load_result :: "ustr \<Rightarrow> document option"
  clock_time :: int
  import_response :: response
  status_after :: status_response

definition run_import :: "import_env \<Rightarrow> ustr \<Rightarrow> import_payload list \<times> (py_error + bool)" where
  "run_import env conversation_file =
     (if \<not> test_connectivity (status_before env) then ([], Inr False)
      else
        (case load_result env conversation_file of
           None \<Rightarrow> ([], Inr False)
         | Some conversation_data \<Rightarrow>
             (let import_payload = prepare_import_payload (clock_time env) conversation_data in
              (case import_conversation (import_response env) import_payload of
                 (sent, Inl e) \<Rightarrow> (sent, Inl e)
               | (sent, Inr ok) \<Rightarrow>
                   (if \<not> ok then (sent, Inr False)
                    else (case verify_import (status_after env) of
                            Inl e \<Rightarrow> (sent, Inl e)
                          | Inr verified \<Rightarrow> (sent, Inr True)))))))"

text \<open>
  The exit status of the script: 1 for a wrong argument count, \<open>0 if success else 1\<close>
  after \<open>run_import\<close>, and 1 when an exception leaves \<open>main\<close>.
\<close>

definition import_conversation_main :: "import_env \<Rightarrow> ustr list \<Rightarrow> nat" where
  "import_conversation_main env argv =
     (if length argv \<noteq> 2 then 1
      else case snd (run_import env (argv ! 1)) of
             Inr success \<Rightarrow> (if success then 0 else 1)
           | Inl e \<Rightarrow> 1)"

section \<open>Quantities the statements speak of\<close>

text \<open>
  The outcome of batch \<open>batch_num\<close> (counted from 1) taken on its own: the result of
  \<open>import_batch\<close> on that batch's payload and on the answer to that batch's request.
\<close>

definition batch_outcome ::
  "(nat \<Rightarrow> response) \<Rightarrow> message list \<Rightarrow> nat \<Rightarrow> nat \<Rightarrow> (bool \<times> int \<times> int) \<times> batch_event list" where
  "batch_outcome respond msgs batch_size batch_num =
     import_batch (respond (batch_num - 1)) (create_batch msgs ((batch_num - 1) * batch_size) batch_size)
       batch_num (total_batches_of (length msgs) batch_size)"

text \<open>The second and third component: what the batch adds to the two totals.\<close>

definition batch_success :: "(nat \<Rightarrow> response) \<Rightarrow> message list \<Rightarrow> nat \<Rightarrow> nat \<Rightarrow> int" where
  "batch_success respond msgs batch_size batch_num =
     fst (snd (fst (batch_outcome respond msgs batch_size batch_num)))"

definition batch_failed :: "(nat \<Rightarrow> response) \<Rightarrow> message list \<Rightarrow> nat \<Rightarrow> nat \<Rightarrow> int" where
  "batch_failed respond msgs batch_size batch_num =
     snd (snd (fst (batch_outcome respond msgs batch_size batch_num)))"

text \<open>The state of the loop of \<open>batch_import\<close> after its first \<open>n\<close> iterations.\<close>

definition loop_upto :: "nat \<Rightarrow> (nat \<Rightarrow> response) \<Rightarrow> message list \<Rightarrow> nat \<Rightarrow> run" where
  "loop_upto batch_size respond msgs n =
     fold (batch_step respond msgs batch_size (total_batches_of (length msgs) batch_size)) [1..<n + 1]
        \<lparr>total_success = 0, total_failed = 0, posted = [], console = []\<rparr>"

text \<open>The keys the parser writes into a message's metadata.\<close>

definition parse_time_keys :: "string set" where
  "parse_time_keys = {''source'', ''line_start'', ''line_end'', ''imported_at''}"

text \<open>The keys \<open>create_batch\<close> adds.\<close>

definition import_flag_keys :: "string set" where
  "import_flag_keys =
     {''historical_import'', ''foundational_memory'', ''batch_import'', ''original_order''}"

text \<open>A submission that raised, or whose response has a status other than 200.\<close>

definition submission_failed :: "response \<Rightarrow> bool" where
  "submission_failed resp =
     (case resp of RequestFailed \<Rightarrow> True | Response status_code b \<Rightarrow> status_code \<noteq> 200)"

text \<open>
  The successful imports of all batches of a run of \<open>batch_import\<close> added up, each
  batch taken on its own; none when the document could not be loaded.
\<close>

definition cumulative_success :: "document option \<Rightarrow> (nat \<Rightarrow> response) \<Rightarrow> int" where
  "cumulative_success loaded respond =
     (case loaded of
        None \<Rightarrow> 0
      | Some d \<Rightarrow>
          (\<Sum>k\<leftarrow>[1..<total_batches_of (length (doc_messages d)) 50 + 1].
             batch_success respond (doc_messages d) 50 k))"

text \<open>The failed imports of all batches added up in the same way.\<close>

definition cumulative_failed :: "document option \<Rightarrow> (nat \<Rightarrow> response) \<Rightarrow> int" where
  "cumulative_failed loaded respond =
     (case loaded of
        None \<Rightarrow> 0
      | Some d \<Rightarrow>
          (\<Sum>k\<leftarrow>[1..<total_batches_of (length (doc_messages d)) 50 + 1].
             batch_failed respond (doc_messages d) 50 k))"

text \<open>
  Message \<open>k\<close> of a list carries the timestamp \<open>base\<close> plus \<open>k\<close> times two minutes.
\<close>

definition timestamps_spaced :: "datetime \<Rightarrow> message list \<Rightarrow> bool" where
  "timestamps_spaced base msgs =
     (\<forall>k < length msgs. timestamp (msgs ! k) = base + minutes (int k * 2))"

text \<open>
  A message with the fields removed that a run does not determine from its input:
  the \<open>imported_at\<close> entry, and the id together with it.
\<close>

definition without_imported_at :: "message \<Rightarrow> message" where
  "without_imported_at m = m\<lparr>metadata := (metadata m)(''imported_at'' := None)\<rparr>"

definition without_id_and_imported_at :: "message \<Rightarrow> message" where
  "without_id_and_imported_at m =
     m\<lparr>msg_id := [], metadata := (metadata m)(''imported_at'' := None)\<rparr>"

section \<open>Concrete runs\<close>

text \<open>Inputs on which the statements below are evaluated.\<close>

definition sample_message :: message where
  "sample_message =
     \<lparr>msg_id = ascii ''id-0'', role = Kai, content = ascii ''Hi'', timestamp = 0,
      metadata = [''source'' \<mapsto> MStr (ascii ''historical_conversation''),
                  ''line_start'' \<mapsto> MInt 1, ''line_end'' \<mapsto> MInt 1,
                  ''imported_at'' \<mapsto> MTime 5]\<rparr>"

definition sample_document :: "message list \<Rightarrow> document" where
  "sample_document msgs =
     \<lparr>conversation_metadata =
        \<lparr>source_file = ascii ''chat.txt'', total_messages = length msgs,
         parsing_timestamp = 0, kai_messages = count_role Kai msgs,
         aletheia_messages = count_role Aletheia msgs,
         system_messages = count_role System msgs\<rparr>,
      doc_messages = msgs\<rparr>"

definition reachable_server :: import_env where
  "reachable_server =
     \<lparr>status_before = StatusResponse 200 (StatusObject Map.empty),
      load_result = (\<lambda>path. Some (sample_document [sample_message])),
      clock_time = 1700000000,
      import_response = Response 200 (JsonObject Map.empty),
      status_after = StatusResponse 200 (StatusObject Map.empty)\<rparr>"

text \<open>A server no request reaches, and one that accepts what it is sent.\<close>

definition unreachable_server :: "nat \<Rightarrow> response" where
  "unreachable_server k = RequestFailed"

definition accepting_server :: "nat \<Rightarrow> response" where
  "accepting_server k =
     Response 200 (JsonObject [''successful'' \<mapsto> 50, ''failed'' \<mapsto> 0, ''totalProcessed'' \<mapsto> 50])"

definition many_messages :: "message list" where
  "many_messages = replicate 120 sample_message"

text \<open>A server that accepts the first and the third request and drops the second.\<close>

definition flaky_server :: "nat \<Rightarrow> response" where
  "flaky_server k =
     (if k = 0 then
        Response 200 (JsonObject [''successful'' \<mapsto> 50, ''failed'' \<mapsto> 0, ''totalProcessed'' \<mapsto> 50])
      else if k = 1 then RequestFailed
      else
        Response 200 (JsonObject [''successful'' \<mapsto> 20, ''failed'' \<mapsto> 0, ''totalProcessed'' \<mapsto> 20]))"

text \<open>
  A server whose counts for a batch of one message add up to one, the first of them
  a number of 401 digits.
\<close>

definition huge_count :: int where
  "huge_count = 10 ^ 400"

definition huge_server :: "nat \<Rightarrow> response" where
  "huge_server k =
     Response 200 (JsonObject [''successful'' \<mapsto> huge_count, ''failed'' \<mapsto> 1 - huge_count,
                               ''totalProcessed'' \<mapsto> 1])"

text \<open>The transcript of four lines, a run on it with the clock and the ids given.\<close>

definition scenario_lines :: "ustr list" where
  "scenario_lines = map ascii
     [''Hi, how are you?'', ''I am doing well, thank you.'', ''Google Search'',
      ''That's an interesting question.'']"

definition scenario_files :: "ustr \<Rightarrow> ustr list option" where
  "scenario_files path = (if path = ascii ''chat.txt'' then Some scenario_lines else None)"

definition pinned_run :: "(nat \<Rightarrow> ustr) \<Rightarrow> parser_env" where
  "pinned_run uuids =
     \<lparr>readlines = scenario_files, now_at_start = 1700000000000000,
      now_at_message = (\<lambda>k. 1700000000000000), uuid4_at_message = uuids,
      now_at_save = 1700000000000000, can_write = (\<lambda>path. True)\<rparr>"

definition uuids_a :: "nat \<Rightarrow> ustr" where
  "uuids_a k = ascii ''a-'' @ [0x30 + k]"

definition uuids_b :: "nat \<Rightarrow> ustr" where
  "uuids_b k = ascii ''b-'' @ [0x30 + k]"

text \<open>
  The parser object as the first run leaves it, and a second run on the same
  transcript that starts five seconds later.
\<close>

definition reused_parser :: parser where
  "reused_parser =
     fst (snd (parse_conversation (pinned_run uuids_a) (ConversationParser (ascii ''chat.txt''))))"

definition later_run :: parser_env where
  "later_run =
     \<lparr>readlines = scenario_files, now_at_start = 1700000005000000,
      now_at_message = (\<lambda>k. 1700000005000000), uuid4_at_message = uuids_b,
      now_at_save = 1700000005000000, can_write = (\<lambda>path. True)\<rparr>"

text \<open>A transcript with an empty second line, and a path that cannot be read.\<close>

definition blank_line_lines :: "ustr list" where
  "blank_line_lines = map ascii [''Hi, how are you?'', [], ''I am doing well, thank you.'']"

definition blank_line_run :: parser_env where
  "blank_line_run =
     \<lparr>readlines = (\<lambda>path. Some blank_line_lines), now_at_start = 1700000000000000,
      now_at_message = (\<lambda>k. 1700000000000000), uuid4_at_message = uuids_a,
      now_at_save = 1700000000000000, can_write = (\<lambda>path. True)\<rparr>"

definition missing_file_run :: parser_env where
  "missing_file_run =
     \<lparr>readlines = (\<lambda>path. None), now_at_start = 1700000000000000,
      now_at_message = (\<lambda>k. 1700000000000000), uuid4_at_message = uuids_a,
      now_at_save = 1700000000000000, can_write = (\<lambda>path. True)\<rparr>"

section \<open>Properties\<close>

subsection \<open>import\_conversation.py never imports\<close>

lemma prepare_import_payload_keys:
  "dom (prepare_import_payload t d) = {''data'', ''options''}"
  by (auto simp: prepare_import_payload_def Let_def)

lemma prepare_import_payload_no_gnosis:
  "prepare_import_payload t d ''gnosisEntries'' = None"
  by (simp add: prepare_import_payload_def Let_def)

text \<open>
  C10. \<open>prepare_import_payload\<close> returns a dictionary whose keys are \<open>data\<close> and
  \<open>options\<close>, and \<open>import_conversation\<close> reads the key \<open>gnosisEntries\<close> before it
  posts anything. So on every prepared payload, whatever the server would answer,
  \<open>import_conversation\<close> ends with a KeyError and nothing posted; \<open>run_import\<close> posts
  nothing and never returns true, and the script exits with status 1.
\<close>

theorem import_conversation_key_error:
  "dom (prepare_import_payload t d) = {''data'', ''options''}
   \<and> import_conversation resp (prepare_import_payload t d) = ([], Inl KeyError)
   \<and> fst (run_import env f) = []
   \<and> snd (run_import env f) \<noteq> Inr True
   \<and> import_conversation_main env argv = 1"
proof -
  have ic: "\<And>resp t d. import_conversation resp (prepare_import_payload t d) = ([], Inl KeyError)"
    by (simp add: import_conversation_def prepare_import_payload_no_gnosis)
  have r: "fst (run_import env f) = [] \<and> snd (run_import env f) \<noteq> Inr True" for f
    by (simp add: run_import_def Let_def ic split: option.splits)
  have m: "import_conversation_main env argv = 1"
    using r [of "argv ! 1"]
    by (auto simp: import_conversation_main_def split: sum.splits)
  show ?thesis using ic r m prepare_import_payload_keys by blast
qed

text \<open>
  With a reachable server that would accept the import and a loadable document, the
  run ends in the KeyError.
\<close>

theorem import_conversation_key_error_witness:
  "run_import reachable_server (ascii ''parsed_conversation.json'') = ([], Inl KeyError)
   \<and> import_conversation_main reachable_server
        [ascii ''import_conversation.py'', ascii ''parsed_conversation.json''] = 1"
proof -
  have "import_conversation (import_response reachable_server)
          (prepare_import_payload (clock_time reachable_server)
             (sample_document [sample_message])) = ([], Inl KeyError)"
    using import_conversation_key_error by blast
  then have "run_import reachable_server (ascii ''parsed_conversation.json'') = ([], Inl KeyError)"
    by (simp add: run_import_def test_connectivity_def reachable_server_def Let_def)
  then show ?thesis
    using import_conversation_key_error by blast
qed

subsection \<open>The loop of batch\_import, iteration by iteration\<close>

lemma loop_upto_0: "loop_upto b respond msgs 0 = \<lparr>total_success = 0, total_failed = 0, posted = [], console = []\<rparr>"
  by (simp add: loop_upto_def)

lemma loop_upto_Suc:
  "loop_upto b respond msgs (Suc n) =
     batch_step respond msgs b (total_batches_of (length msgs) b) (Suc n) (loop_upto b respond msgs n)"
  by (simp add: loop_upto_def)

lemma batch_loop_upto: "batch_loop b respond msgs = loop_upto b respond msgs (total_batches_of (length msgs) b)"
  by (simp add: batch_loop_def loop_upto_def Let_def)

lemma posted_batch_step:
  "posted (batch_step respond msgs b T k st) = posted st @ [create_batch msgs ((k - 1) * b) b]"
  by (simp add: batch_step_def Let_def split: prod.splits)

lemma posted_loop_upto:
  "posted (loop_upto b respond msgs n) = map (\<lambda>k. create_batch msgs ((k - 1) * b) b) [1..<n + 1]"
  by (induction n) (simp_all add: loop_upto_0 loop_upto_Suc posted_batch_step)

lemma length_posted_loop_upto: "length (posted (loop_upto b respond msgs n)) = n"
  by (simp add: posted_loop_upto)

lemma total_success_batch_step:
  "length (posted st) = k - 1 \<Longrightarrow>
   total_success (batch_step respond msgs b (total_batches_of (length msgs) b) k st)
     = total_success st + batch_success respond msgs b k"
  by (simp add: batch_step_def Let_def batch_success_def batch_outcome_def split: prod.splits)

lemma total_failed_batch_step:
  "length (posted st) = k - 1 \<Longrightarrow>
   total_failed (batch_step respond msgs b (total_batches_of (length msgs) b) k st)
     = total_failed st + batch_failed respond msgs b k"
  by (simp add: batch_step_def Let_def batch_failed_def batch_outcome_def split: prod.splits)

lemma total_success_loop_upto:
  "total_success (loop_upto b respond msgs n) = (\<Sum>k\<leftarrow>[1..<n + 1]. batch_success respond msgs b k)"
  by (induction n) (simp_all add: loop_upto_0 loop_upto_Suc total_success_batch_step length_posted_loop_upto)

lemma total_failed_loop_upto:
  "total_failed (loop_upto b respond msgs n) = (\<Sum>k\<leftarrow>[1..<n + 1]. batch_failed respond msgs b k)"
  by (induction n) (simp_all add: loop_upto_0 loop_upto_Suc total_failed_batch_step length_posted_loop_upto)

lemma console_batch_step:
  "length (posted st) = k - 1 \<Longrightarrow>
   console (batch_step respond msgs b (total_batches_of (length msgs) b) k st)
     = console st @ [Processing k (total_batches_of (length msgs) b) ((k - 1) * b + 1) (min ((k - 1) * b + b) (length msgs))]
        @ snd (batch_outcome respond msgs b k)
        @ (if fst (fst (batch_outcome respond msgs b k)) then [] else [Continuing k])"
  by (simp add: batch_step_def Let_def batch_outcome_def split: prod.splits)

lemma console_loop_upto_mono:
  "k \<le> n \<Longrightarrow> 1 \<le> k \<Longrightarrow>
     set (snd (batch_outcome respond msgs b k)) \<subseteq> set (console (loop_upto b respond msgs n))
     \<and> (\<not> fst (fst (batch_outcome respond msgs b k)) \<longrightarrow> Continuing k \<in> set (console (loop_upto b respond msgs n)))"
proof (induction n)
  case 0
  then show ?case by simp
next
  case (Suc n)
  show ?case
  proof (cases "k = Suc n")
    case True
    then show ?thesis
      by (auto simp: loop_upto_Suc console_batch_step length_posted_loop_upto)
  next
    case False
    with Suc have "k \<le> n" by simp
    with Suc show ?thesis
      by (auto simp: loop_upto_Suc console_batch_step length_posted_loop_upto)
  qed
qed

lemma total_batches_cover:
  assumes "1 \<le> b"
  shows "n \<le> total_batches_of n b * b"
proof -
  have "(n + b - 1) mod b < b" using assms by simp
  moreover have "(n + b - 1) div b * b + (n + b - 1) mod b = n + b - 1" by simp
  ultimately show ?thesis unfolding total_batches_of_def by linarith
qed

lemma before_last_batch:
  assumes "1 \<le> b" and "k < total_batches_of n b"
  shows "k * b + b \<le> n + b - 1"
proof -
  have "Suc k \<le> total_batches_of n b" using assms(2) by simp
  then have "Suc k * b \<le> total_batches_of n b * b" by (rule mult_le_mono1)
  also have "\<dots> \<le> n + b - 1" unfolding total_batches_of_def by simp
  finally show ?thesis by simp
qed

lemma before_last_batch_less:
  assumes "1 \<le> b" and "k < total_batches_of n b"
  shows "k * b < n"
  using before_last_batch [OF assms] assms(1) by linarith

lemma total_batches_ceiling:
  assumes "1 \<le> b"
  shows "int (total_batches_of n b) = \<lceil>real n / real b\<rceil>"
proof -
  let ?q = "total_batches_of n b"
  have bpos: "0 < real b" using assms by simp
  have "real n \<le> real (?q * b)" using total_batches_cover [OF assms, of n] by linarith
  then have up: "real n / real b \<le> of_int (int ?q)"
    using bpos by (simp add: pos_divide_le_eq)
  have "real (?q * b) < real n + real b"
  proof (cases "?q = 0")
    case True
    then show ?thesis using bpos by simp
  next
    case False
    then have "?q - 1 < ?q" by simp
    from before_last_batch [OF assms this] False have "?q * b \<le> n + b - 1"
      by (simp add: algebra_simps diff_mult_distrib)
    then have "?q * b < n + b" using assms by linarith
    then show ?thesis by (metis of_nat_add of_nat_less_iff)
  qed
  then have "(of_int (int ?q) - 1) * real b < real n"
    by (simp add: algebra_simps)
  then have lo: "of_int (int ?q) - 1 < real n / real b"
    using bpos by (simp add: pos_less_divide_eq)
  show ?thesis using ceiling_unique [OF lo up] by simp
qed

subsection \<open>Partition into batches\<close>

lemma data_messages_create_batch:
  "data_messages (data (create_batch msgs start b)) =
     map (\<lambda>i. formatted_msg (msgs ! i) i) [start..<min (start + b) (length msgs)]"
  by (simp add: create_batch_def Let_def)

lemma concat_batches_upto:
  "concat (map (\<lambda>k. map f [(k - 1) * b..<min ((k - 1) * b + b) n]) [1..<j + 1])
     = map f [0..<min (j * b) n]"
proof (induction j)
  case 0
  then show ?case by simp
next
  case (Suc j)
  have "[0..<min (j * b) n] @ [j * b..<min (j * b + b) n] = [0..<min (j * b + b) n]"
  proof (cases "j * b \<le> n")
    case True
    then have "min (j * b) n = j * b" by simp
    moreover have "j * b \<le> min (j * b + b) n" using True by simp
    ultimately show ?thesis
      using upt_add_eq_append [of 0 "j * b" "min (j * b + b) n - j * b"] by simp
  next
    case False
    then show ?thesis by simp
  qed
  then have "map f [0..<min (j * b) n] @ map f [j * b..<min (j * b + b) n] = map f [0..<min (j * b + b) n]"
    by (metis map_append)
  with Suc show ?case by (simp add: add.commute)
qed

text \<open>
  C1. For a batch size \<open>b \<ge> 1\<close> and any message list of length \<open>n\<close>, the run of the
  uploader posts \<open>ceil(n / b)\<close> payloads; the payload of batch \<open>k\<close> (counted from 1)
  holds the reshaped messages at offsets \<open>(k - 1) * b\<close> up to \<open>min(k * b, n) - 1\<close>;
  every batch before the last holds exactly \<open>b\<close> of them; and the batches in order,
  put end to end, are the reshaped messages of the whole list in order, whose role,
  content, timestamp and id are those of the original messages.
\<close>

theorem batches_partition_messages:
  assumes "1 \<le> b"
  shows "int (total_batches_of (length msgs) b) = \<lceil>real (length msgs) / real b\<rceil>
    \<and> length (posted (batch_loop b respond msgs)) = total_batches_of (length msgs) b
    \<and> (\<forall>k. 1 \<le> k \<and> k \<le> total_batches_of (length msgs) b \<longrightarrow>
          data_messages (data (posted (batch_loop b respond msgs) ! (k - 1)))
            = map (\<lambda>i. formatted_msg (msgs ! i) i) [(k - 1) * b..<min (k * b) (length msgs)])
    \<and> (\<forall>k. 1 \<le> k \<and> k < total_batches_of (length msgs) b \<longrightarrow>
          length (data_messages (data (posted (batch_loop b respond msgs) ! (k - 1)))) = b)
    \<and> concat (map (\<lambda>p. data_messages (data p)) (posted (batch_loop b respond msgs)))
          = map (\<lambda>i. formatted_msg (msgs ! i) i) [0..<length msgs]
    \<and> map (\<lambda>r. (im_role r, im_content r, im_timestamp r, externalId r))
          (concat (map (\<lambda>p. data_messages (data p)) (posted (batch_loop b respond msgs))))
          = map (\<lambda>m. (role m, content m, timestamp m, msg_id m)) msgs"
proof -
  let ?T = "total_batches_of (length msgs) b"
  let ?P = "posted (batch_loop b respond msgs)"
  let ?f = "\<lambda>i. formatted_msg (msgs ! i) i"
  have P: "?P = map (\<lambda>k. create_batch msgs ((k - 1) * b) b) [1..<?T + 1]"
    by (simp add: batch_loop_upto posted_loop_upto)
  have len: "length ?P = ?T" by (simp add: P)
  have nth: "data_messages (data (?P ! (k - 1))) = map ?f [(k - 1) * b..<min (k * b) (length msgs)]"
    if "1 \<le> k" "k \<le> ?T" for k
  proof -
    have "k - 1 < length [1..<?T + 1]" using that by simp
    then have "?P ! (k - 1) = create_batch msgs (([1..<?T + 1] ! (k - 1) - 1) * b) b"
      unfolding P by (rule nth_map)
    moreover have "[1..<?T + 1] ! (k - 1) = k"
      using that nth_upt [of 1 "k - 1" "?T + 1"] by simp
    moreover have "(k - 1) * b + b = k * b" using that by (simp add: diff_mult_distrib)
    ultimately show ?thesis by (simp add: data_messages_create_batch)
  qed
  have full: "length (data_messages (data (?P ! (k - 1)))) = b" if "1 \<le> k" "k < ?T" for k
  proof -
    have "k * b + b \<le> length msgs + b - 1" using before_last_batch [OF assms that(2)] .
    then have "k * b \<le> length msgs" using assms by linarith
    moreover have "k * b - (k - 1) * b = b" using that(1) by (simp add: diff_mult_distrib)
    ultimately show ?thesis using nth [of k] that by simp
  qed
  have "concat (map (\<lambda>p. data_messages (data p)) ?P)
          = concat (map (\<lambda>k. map ?f [(k - 1) * b..<min ((k - 1) * b + b) (length msgs)]) [1..<?T + 1])"
    by (simp add: P data_messages_create_batch comp_def)
  also have "\<dots> = map ?f [0..<min (?T * b) (length msgs)]"
    by (rule concat_batches_upto)
  also have "min (?T * b) (length msgs) = length msgs"
    using total_batches_cover [OF assms, of "length msgs"] by simp
  finally have cat: "concat (map (\<lambda>p. data_messages (data p)) ?P) = map ?f [0..<length msgs]" .
  have orig: "map (\<lambda>r. (im_role r, im_content r, im_timestamp r, externalId r)) (map ?f [0..<length msgs])
          = map (\<lambda>m. (role m, content m, timestamp m, msg_id m)) msgs"
    by (rule nth_equalityI) (simp_all add: formatted_msg_def)
  have orig': "map (\<lambda>r. (im_role r, im_content r, im_timestamp r, externalId r))
          (concat (map (\<lambda>p. data_messages (data p)) ?P))
          = map (\<lambda>m. (role m, content m, timestamp m, msg_id m)) msgs"
    using orig by (simp only: cat)
  show ?thesis
  proof (intro conjI allI impI)
    show "int ?T = \<lceil>real (length msgs) / real b\<rceil>"
      by (rule total_batches_ceiling [OF assms])
    show "length ?P = ?T" by (rule len)
    show "data_messages (data (?P ! (k - 1))) = map ?f [(k - 1) * b..<min (k * b) (length msgs)]"
      if "1 \<le> k \<and> k \<le> ?T" for k using that nth by blast
    show "length (data_messages (data (?P ! (k - 1)))) = b"
      if "1 \<le> k \<and> k < ?T" for k using that full by blast
    show "concat (map (\<lambda>p. data_messages (data p)) ?P) = map ?f [0..<length msgs]"
      by (rule cat)
    show "map (\<lambda>r. (im_role r, im_content r, im_timestamp r, externalId r))
          (concat (map (\<lambda>p. data_messages (data p)) ?P))
          = map (\<lambda>m. (role m, content m, timestamp m, msg_id m)) msgs"
      by (rule orig')
  qed
qed

theorem batches_partition_messages_witness:
  "(1::nat) \<le> 50
   \<and> total_batches_of (length many_messages) 50 = 3
   \<and> length (posted (batch_loop 50 unreachable_server many_messages)) = 3
   \<and> length (data_messages (data (posted (batch_loop 50 unreachable_server many_messages) ! 0))) = 50
   \<and> data_messages (data (posted (batch_loop 50 unreachable_server many_messages) ! 2))
        = map (\<lambda>i. formatted_msg (many_messages ! i) i) [100..<120]
   \<and> length (concat (map (\<lambda>p. data_messages (data p))
        (posted (batch_loop 50 unreachable_server many_messages)))) = 120"
proof -
  have b: "(1::nat) \<le> 50" by simp
  have n: "length many_messages = 120" by (simp add: many_messages_def)
  have T: "total_batches_of (length many_messages) 50 = 3"
    by (simp add: n total_batches_of_def)
  note P = batches_partition_messages [OF b, of many_messages unreachable_server]
  have one: "(1::nat) \<le> 1 \<and> 1 < total_batches_of (length many_messages) 50" by (simp add: T)
  have three: "(1::nat) \<le> 3 \<and> 3 \<le> total_batches_of (length many_messages) 50" by (simp add: T)
  from P have "length (posted (batch_loop 50 unreachable_server many_messages)) = 3"
    by (simp add: T)
  moreover from P one
  have "length (data_messages (data (posted (batch_loop 50 unreachable_server many_messages) ! (1 - 1)))) = 50"
    by blast
  moreover from P three
  have "data_messages (data (posted (batch_loop 50 unreachable_server many_messages) ! (3 - 1)))
        = map (\<lambda>i. formatted_msg (many_messages ! i) i) [(3 - 1) * 50..<min (3 * 50) (length many_messages)]"
    by blast
  moreover from P
  have "length (concat (map (\<lambda>p. data_messages (data p))
        (posted (batch_loop 50 unreachable_server many_messages)))) = 120"
    by (simp add: n)
  ultimately show ?thesis using T by (simp add: n)
qed

subsection \<open>What reshaping keeps and adds\<close>

lemma sample_message_keys: "dom (metadata sample_message) \<subseteq> parse_time_keys"
  by (auto simp: sample_message_def parse_time_keys_def split: if_splits)

text \<open>
  C6. Every record of a payload built by \<open>create_batch\<close> carries the role, content
  and timestamp of the message it was made from, and that message's id as
  \<open>externalId\<close>. Its metadata agrees with the message's metadata on every key other
  than the four added flags; when the message's metadata is parse-time metadata (its
  keys are among \<open>source\<close>, \<open>line_start\<close>, \<open>line_end\<close>, \<open>imported_at\<close>), every one of
  its entries is in the record unchanged. The added flags \<open>historical_import\<close>,
  \<open>foundational_memory\<close> and \<open>batch_import\<close> are true, and \<open>original_order\<close> is the
  position of the message in the whole list.
\<close>

theorem reshaped_message_keeps_parsed_fields:
  assumes "j < length (data_messages (data (create_batch msgs start b)))"
    and "dom (metadata (msgs ! (start + j))) \<subseteq> parse_time_keys"
  shows "im_role (data_messages (data (create_batch msgs start b)) ! j) = role (msgs ! (start + j))
    \<and> im_content (data_messages (data (create_batch msgs start b)) ! j) = content (msgs ! (start + j))
    \<and> im_timestamp (data_messages (data (create_batch msgs start b)) ! j) = timestamp (msgs ! (start + j))
    \<and> externalId (data_messages (data (create_batch msgs start b)) ! j) = msg_id (msgs ! (start + j))
    \<and> (\<forall>key v. metadata (msgs ! (start + j)) key = Some v \<longrightarrow>
          im_metadata (data_messages (data (create_batch msgs start b)) ! j) key = Some v)
    \<and> (\<forall>key. key \<notin> import_flag_keys \<longrightarrow>
          im_metadata (data_messages (data (create_batch msgs start b)) ! j) key
            = metadata (msgs ! (start + j)) key)
    \<and> im_metadata (data_messages (data (create_batch msgs start b)) ! j) ''historical_import'' = Some (MBool True)
    \<and> im_metadata (data_messages (data (create_batch msgs start b)) ! j) ''foundational_memory'' = Some (MBool True)
    \<and> im_metadata (data_messages (data (create_batch msgs start b)) ! j) ''batch_import'' = Some (MBool True)
    \<and> im_metadata (data_messages (data (create_batch msgs start b)) ! j) ''original_order''
          = Some (MInt (int (start + j)))"
proof -
  let ?r = "data_messages (data (create_batch msgs start b)) ! j"
  let ?m = "msgs ! (start + j)"
  have j: "j < min (start + b) (length msgs) - start"
    using assms(1) by (simp add: data_messages_create_batch)
  then have "start + j < min (start + b) (length msgs)" by linarith
  then have "[start..<min (start + b) (length msgs)] ! j = start + j"
    by (rule nth_upt)
  with j have r: "?r = formatted_msg ?m (start + j)"
    by (simp add: data_messages_create_batch)
  have kept: "im_metadata ?r key = Some v" if "metadata ?m key = Some v" for key v
  proof -
    from that have "key \<in> parse_time_keys" using assms(2) by blast
    then show ?thesis using that
      by (auto simp: r formatted_msg_def parse_time_keys_def)
  qed
  have frame: "im_metadata ?r key = metadata ?m key" if "key \<notin> import_flag_keys" for key
    using that by (simp add: r formatted_msg_def import_flag_keys_def)
  show ?thesis
  proof (intro conjI allI impI)
    show "im_metadata ?r key = Some v" if "metadata ?m key = Some v" for key v
      using that by (rule kept)
    show "im_metadata ?r key = metadata ?m key" if "key \<notin> import_flag_keys" for key
      using that by (rule frame)
  qed (simp_all add: r formatted_msg_def)
qed

text \<open>
  With 120 messages and batches of 50, the third batch starts at offset 100; its 20
  records carry \<open>original_order\<close> 100 to 119.
\<close>

theorem reshaped_message_keeps_parsed_fields_witness:
  "(19::nat) < length (data_messages (data (create_batch many_messages 100 50)))
   \<and> dom (metadata (many_messages ! (100 + 19))) \<subseteq> parse_time_keys
   \<and> externalId (data_messages (data (create_batch many_messages 100 50)) ! 19) = ascii ''id-0''
   \<and> im_metadata (data_messages (data (create_batch many_messages 100 50)) ! 19) ''line_start'' = Some (MInt 1)
   \<and> im_metadata (data_messages (data (create_batch many_messages 100 50)) ! 0) ''original_order'' = Some (MInt 100)
   \<and> im_metadata (data_messages (data (create_batch many_messages 100 50)) ! 19) ''original_order'' = Some (MInt 119)
   \<and> length (data_messages (data (create_batch many_messages 100 50))) = 20"
proof -
  have len: "length (data_messages (data (create_batch many_messages 100 50))) = 20"
    by (simp add: data_messages_create_batch many_messages_def)
  have l19: "(19::nat) < length (data_messages (data (create_batch many_messages 100 50)))"
    and l0: "(0::nat) < length (data_messages (data (create_batch many_messages 100 50)))"
    by (simp_all add: len)
  have m19: "many_messages ! (100 + 19) = sample_message"
    and m0: "many_messages ! (100 + 0) = sample_message"
    by (simp_all add: many_messages_def)
  have k19: "dom (metadata (many_messages ! (100 + 19))) \<subseteq> parse_time_keys"
    and k0: "dom (metadata (many_messages ! (100 + 0))) \<subseteq> parse_time_keys"
    by (simp_all only: m19 m0 sample_message_keys)
  note A = reshaped_message_keeps_parsed_fields [OF l19 k19]
  note B = reshaped_message_keeps_parsed_fields [OF l0 k0]
  have "metadata (many_messages ! (100 + 19)) ''line_start'' = Some (MInt 1)"
    by (simp only: m19) (simp add: sample_message_def)
  with A have "im_metadata (data_messages (data (create_batch many_messages 100 50)) ! 19) ''line_start'' = Some (MInt 1)"
    by blast
  moreover from A have "externalId (data_messages (data (create_batch many_messages 100 50)) ! 19) = ascii ''id-0''"
    by (simp only: m19) (simp add: sample_message_def)
  moreover from A have "im_metadata (data_messages (data (create_batch many_messages 100 50)) ! 19) ''original_order'' = Some (MInt 119)"
    by simp
  moreover from B have "im_metadata (data_messages (data (create_batch many_messages 100 50)) ! 0) ''original_order'' = Some (MInt 100)"
    by simp
  ultimately show ?thesis using l19 k19 len by blast
qed

subsection \<open>Failed batches and the outcome of the run\<close>

lemma import_batch_failed:
  "submission_failed resp \<Longrightarrow>
     fst (import_batch resp p k T) = (False, 0, int (length (data_messages (data p))))
     \<and> (snd (import_batch resp p k T) = [BatchError k T]
          \<or> (\<exists>s. snd (import_batch resp p k T) = [BatchFailedStatus k T s]))"
  by (cases resp) (auto simp: submission_failed_def import_batch_def)

lemma printable_below:
  "abs n < 10 ^ int_max_str_digits \<Longrightarrow> \<not> unprintable n"
  by (simp add: unprintable_def)

lemma small_printable:
  assumes "abs n < 1000"
  shows "\<not> unprintable n"
proof -
  have "(10::int) ^ 3 \<le> 10 ^ int_max_str_digits"
    by (rule power_increasing) (simp_all add: int_max_str_digits_def)
  with assms have "abs n < 10 ^ int_max_str_digits" by simp
  then show ?thesis by (rule printable_below)
qed

lemma huge_count_bounds:
  "0 < huge_count" "huge_count < 10 ^ int_max_str_digits"
proof -
  show "0 < huge_count" unfolding huge_count_def by (rule zero_less_power) simp
  show "huge_count < 10 ^ int_max_str_digits" unfolding huge_count_def
    by (rule power_strict_increasing) (simp_all add: int_max_str_digits_def)
qed

lemma huge_count_printable:
  "\<not> unprintable huge_count" "\<not> unprintable (1 - huge_count)"
  using huge_count_bounds by (simp_all add: printable_below)

lemma many_messages_length: "length many_messages = 120"
  by (simp add: many_messages_def)

lemma many_messages_batches: "total_batches_of (length many_messages) 50 = 3"
  by (simp add: many_messages_length total_batches_of_def)

lemma flaky_counts:
  "batch_success flaky_server many_messages 50 (Suc 0) = 50"
  "batch_success flaky_server many_messages 50 2 = 0"
  "batch_success flaky_server many_messages 50 3 = 20"
  "batch_failed flaky_server many_messages 50 (Suc 0) = 0"
  "batch_failed flaky_server many_messages 50 2 = 50"
  "batch_failed flaky_server many_messages 50 3 = 0"
  by (simp_all add: batch_success_def batch_failed_def batch_outcome_def import_batch_def
      flaky_server_def get_default_def data_messages_create_batch many_messages_length
      small_printable)

lemma unreachable_counts:
  "batch_success unreachable_server many_messages 50 k = 0"
  by (simp add: batch_success_def batch_outcome_def import_batch_def unreachable_server_def)

lemma upto_three: "[1..<3 + 1] = [1, 2, 3::nat]"
  by (simp add: upt_rec)

text \<open>
  C7. Let the submission of batch \<open>k\<close> fail: the request raises, or the response has a
  status other than 200. Then \<open>import_batch\<close> reports no success, 0 successful and
  the batch's full message count as failed; the totals of the run are the sums of
  what the batches report, so this batch adds 0 and its message count; the failure is
  printed, followed by the notice that the run continues; and the payloads posted
  during the run are those of batch 1 to the last batch, each once and in order, so
  the loop goes on to the batches after \<open>k\<close> and posts batch \<open>k\<close> no second time.
\<close>

theorem failed_batch_counted_and_skipped:
  assumes "1 \<le> b" and "1 \<le> k" and "k \<le> total_batches_of (length msgs) b"
    and "submission_failed (respond (k - 1))"
  shows "fst (batch_outcome respond msgs b k)
           = (False, 0, int (min (k * b) (length msgs) - (k - 1) * b))
    \<and> batch_success respond msgs b k = 0
    \<and> batch_failed respond msgs b k
         = int (length (data_messages (data (create_batch msgs ((k - 1) * b) b))))
    \<and> total_success (batch_loop b respond msgs)
         = (\<Sum>j\<leftarrow>[1..<total_batches_of (length msgs) b + 1]. batch_success respond msgs b j)
    \<and> total_failed (batch_loop b respond msgs)
         = (\<Sum>j\<leftarrow>[1..<total_batches_of (length msgs) b + 1]. batch_failed respond msgs b j)
    \<and> posted (batch_loop b respond msgs)
         = map (\<lambda>j. create_batch msgs ((j - 1) * b) b) [1..<total_batches_of (length msgs) b + 1]
    \<and> (BatchError k (total_batches_of (length msgs) b) \<in> set (console (batch_loop b respond msgs))
        \<or> (\<exists>s. BatchFailedStatus k (total_batches_of (length msgs) b) s
                   \<in> set (console (batch_loop b respond msgs))))
    \<and> Continuing k \<in> set (console (batch_loop b respond msgs))"
proof -
  let ?T = "total_batches_of (length msgs) b"
  let ?p = "create_batch msgs ((k - 1) * b) b"
  note F = import_batch_failed [OF assms(4), of ?p k ?T]
  have out: "fst (batch_outcome respond msgs b k) = (False, 0, int (length (data_messages (data ?p))))"
    using F by (simp add: batch_outcome_def)
  have kb: "(k - 1) * b + b = k * b" using assms(2) by (simp add: diff_mult_distrib)
  have size: "length (data_messages (data ?p)) = min (k * b) (length msgs) - (k - 1) * b"
    by (simp only: data_messages_create_batch length_map length_upt kb)
  have logged: "set (snd (batch_outcome respond msgs b k)) \<subseteq> set (console (batch_loop b respond msgs))"
    and cont: "Continuing k \<in> set (console (batch_loop b respond msgs))"
    using console_loop_upto_mono [OF assms(3) assms(2), of respond msgs b] out
    by (simp_all add: batch_loop_upto)
  have ev: "BatchError k ?T \<in> set (snd (batch_outcome respond msgs b k))
        \<or> (\<exists>s. BatchFailedStatus k ?T s \<in> set (snd (batch_outcome respond msgs b k)))"
    using F by (auto simp: batch_outcome_def)
  show ?thesis
  proof (intro conjI)
    show "fst (batch_outcome respond msgs b k) = (False, 0, int (min (k * b) (length msgs) - (k - 1) * b))"
      using out size by simp
    show "batch_success respond msgs b k = 0" using out by (simp add: batch_success_def)
    show "batch_failed respond msgs b k = int (length (data_messages (data ?p)))"
      using out by (simp add: batch_failed_def)
    show "total_success (batch_loop b respond msgs) = (\<Sum>j\<leftarrow>[1..<?T + 1]. batch_success respond msgs b j)"
      by (simp only: batch_loop_upto total_success_loop_upto)
    show "total_failed (batch_loop b respond msgs) = (\<Sum>j\<leftarrow>[1..<?T + 1]. batch_failed respond msgs b j)"
      by (simp only: batch_loop_upto total_failed_loop_upto)
    show "posted (batch_loop b respond msgs) = map (\<lambda>j. create_batch msgs ((j - 1) * b) b) [1..<?T + 1]"
      by (simp only: batch_loop_upto posted_loop_upto)
    show "BatchError k ?T \<in> set (console (batch_loop b respond msgs))
        \<or> (\<exists>s. BatchFailedStatus k ?T s \<in> set (console (batch_loop b respond msgs)))"
      using ev logged by blast
    show "Continuing k \<in> set (console (batch_loop b respond msgs))" by (rule cont)
  qed
qed

text \<open>
  120 messages in batches of 50, the second request dropped: the second batch counts
  as 50 failed, the run posts three payloads and ends with 70 successes.
\<close>

theorem failed_batch_counted_and_skipped_witness:
  "(1::nat) \<le> 50 \<and> (1::nat) \<le> 2 \<and> 2 \<le> total_batches_of (length many_messages) 50
   \<and> submission_failed (flaky_server (2 - 1))
   \<and> fst (batch_outcome flaky_server many_messages 50 2) = (False, 0, 50)
   \<and> total_success (batch_loop 50 flaky_server many_messages) = 70
   \<and> total_failed (batch_loop 50 flaky_server many_messages) = 50
   \<and> length (posted (batch_loop 50 flaky_server many_messages)) = 3
   \<and> Continuing 2 \<in> set (console (batch_loop 50 flaky_server many_messages))"
proof -
  have h1: "(1::nat) \<le> 50" and h2: "(1::nat) \<le> 2" by simp_all
  have h3: "2 \<le> total_batches_of (length many_messages) 50"
    by (simp add: many_messages_batches)
  have h4: "submission_failed (flaky_server (2 - 1))"
    by (simp add: submission_failed_def flaky_server_def)
  note W = failed_batch_counted_and_skipped [of 50 2 many_messages flaky_server, OF h1 h2 h3 h4]
  from W have "fst (batch_outcome flaky_server many_messages 50 2) = (False, 0, 50)"
    by (simp add: many_messages_length)
  moreover from W have "total_success (batch_loop 50 flaky_server many_messages) = 70"
    by (simp only: many_messages_batches upto_three) (simp add: flaky_counts)
  moreover from W have "total_failed (batch_loop 50 flaky_server many_messages) = 50"
    by (simp only: many_messages_batches upto_three) (simp add: flaky_counts)
  moreover from W have "length (posted (batch_loop 50 flaky_server many_messages)) = 3"
    by (simp only: many_messages_batches upto_three) simp
  moreover from W have "Continuing 2 \<in> set (console (batch_loop 50 flaky_server many_messages))"
    by blast
  ultimately show ?thesis using h1 h2 h3 h4 by blast
qed

lemma no_overflow_of_part:
  assumes "0 \<le> a" "a \<le> p" "0 < p"
  shows "\<not> true_divide_overflows a p"
proof
  assume "true_divide_overflows a p"
  then have le: "(2 ^ 1024 - 2 ^ 970) * p \<le> a"
    using assms by (simp add: true_divide_overflows_def)
  have "(2::int) \<le> 2 ^ 1024 - 2 ^ 970" by simp
  then have "2 * p \<le> (2 ^ 1024 - 2 ^ 970) * p"
    using assms(3) by (intro mult_right_mono) simp_all
  with le assms show False by linarith
qed

lemma total_success_is_cumulative:
  "total_success (batch_loop 50 respond (doc_messages d)) = cumulative_success (Some d) respond"
  by (simp only: cumulative_success_def option.case batch_loop_upto total_success_loop_upto)

lemma total_failed_is_cumulative:
  "total_failed (batch_loop 50 respond (doc_messages d)) = cumulative_failed (Some d) respond"
  by (simp only: cumulative_failed_def option.case batch_loop_upto total_failed_loop_upto)

lemma total_success_after_summary:
  "total_success (snd (batch_import loaded respond)) = cumulative_success loaded respond"
proof (cases loaded)
  case None
  then show ?thesis by (simp add: batch_import_def cumulative_success_def)
next
  case (Some d)
  show ?thesis
    unfolding Some batch_import_def option.case Let_def total_success_is_cumulative [symmetric]
    by simp
qed

lemma batch_import_of_counts:
  assumes "0 \<le> cumulative_success loaded respond"
    and "0 \<le> cumulative_failed loaded respond"
    and "cumulative_success loaded respond + cumulative_failed loaded respond
           < 10 ^ int_max_str_digits"
  shows "fst (batch_import loaded respond) = Inr (0 < cumulative_success loaded respond)"
proof (cases loaded)
  case None
  then show ?thesis by (simp add: batch_import_def cumulative_success_def)
next
  case (Some d)
  define s where "s = cumulative_success (Some d) respond"
  define f where "f = cumulative_failed (Some d) respond"
  from assms have s0: "0 \<le> s" and f0: "0 \<le> f" and b: "s + f < 10 ^ int_max_str_digits"
    by (simp_all add: Some s_def f_def)
  have p1: "\<not> unprintable (s + f)" using s0 f0 b by (intro printable_below) simp
  have p2: "\<not> unprintable s" using s0 f0 b by (intro printable_below) simp
  have p3: "\<not> unprintable f" using s0 f0 b by (intro printable_below) simp
  have o: "0 < s + f \<Longrightarrow> \<not> true_divide_overflows s (s + f)"
    using s0 f0 by (intro no_overflow_of_part) simp_all
  show ?thesis
    unfolding Some batch_import_def option.case Let_def total_success_is_cumulative
      total_failed_is_cumulative s_def [symmetric] f_def [symmetric]
    using p1 p2 p3 o by simp
qed

lemma batch_import_without_success:
  assumes "cumulative_success loaded respond \<le> 0"
  shows "fst (batch_import loaded respond) \<noteq> Inr True"
proof (cases loaded)
  case None
  then show ?thesis by (simp add: batch_import_def)
next
  case (Some d)
  from assms have "\<not> 0 < cumulative_success (Some d) respond" by (simp add: Some)
  then show ?thesis
    unfolding Some batch_import_def option.case Let_def total_success_is_cumulative
    by simp
qed

lemma unreachable_failed_counts:
  "batch_failed unreachable_server many_messages 50 (Suc 0) = 50"
  "batch_failed unreachable_server many_messages 50 2 = 50"
  "batch_failed unreachable_server many_messages 50 3 = 20"
  by (simp_all add: batch_failed_def batch_outcome_def import_batch_def
      unreachable_server_def data_messages_create_batch many_messages_length)

lemma one_message_batches: "total_batches_of (length [sample_message]) 50 = 1"
  by (simp add: total_batches_of_def)

lemma huge_counts:
  "batch_success huge_server [sample_message] 50 (Suc 0) = huge_count"
  "batch_failed huge_server [sample_message] 50 (Suc 0) = 1 - huge_count"
  by (simp_all add: batch_success_def batch_failed_def batch_outcome_def import_batch_def
      huge_server_def get_default_def small_printable huge_count_printable Let_def)

lemma huge_cumulative:
  "cumulative_success (Some (sample_document [sample_message])) huge_server = huge_count"
  "cumulative_failed (Some (sample_document [sample_message])) huge_server = 1 - huge_count"
proof -
  have d: "doc_messages (sample_document [sample_message]) = [sample_message]"
    by (simp add: sample_document_def)
  have u: "[1..<1 + 1] = [Suc 0]" by simp
  show "cumulative_success (Some (sample_document [sample_message])) huge_server = huge_count"
    by (simp only: cumulative_success_def option.case d one_message_batches u)
       (simp add: huge_counts)
  show "cumulative_failed (Some (sample_document [sample_message])) huge_server = 1 - huge_count"
    by (simp only: cumulative_failed_def option.case d one_message_batches u)
       (simp add: huge_counts)
qed

text \<open>
  C8, as the code has it. A run whose successful imports add up to nothing never
  returns true and exits with status 1, whatever the server sent. When the two sums
  of the server's counts are not negative and together have no more than 4300 digits,
  \<open>batch_import\<close> returns, and it returns true exactly when the successful imports of all
  batches together are more than zero, whatever failed along the way; the script
  exits with status 0 in that case and with status 1 otherwise, which includes the run
  that could not load its document. The total the run has accumulated is the sum of
  the batches' successful imports in every case.
\<close>

theorem run_succeeds_iff_some_import_succeeded:
  "(cumulative_success loaded respond \<le> 0 \<longrightarrow>
      fst (batch_import loaded respond) \<noteq> Inr True
      \<and> batch_import_history_main loaded respond = 1)
   \<and> (0 \<le> cumulative_success loaded respond \<and> 0 \<le> cumulative_failed loaded respond
       \<and> cumulative_success loaded respond + cumulative_failed loaded respond
            < 10 ^ int_max_str_digits \<longrightarrow>
      fst (batch_import loaded respond) = Inr (0 < cumulative_success loaded respond)
      \<and> batch_import_history_main loaded respond
           = (if 0 < cumulative_success loaded respond then 0 else 1))
   \<and> total_success (snd (batch_import loaded respond)) = cumulative_success loaded respond"
proof (intro conjI impI)
  assume z: "cumulative_success loaded respond \<le> 0"
  show "fst (batch_import loaded respond) \<noteq> Inr True"
    using z by (rule batch_import_without_success)
  then show "batch_import_history_main loaded respond = 1"
    by (simp add: batch_import_history_main_def split: sum.splits)
next
  assume h: "0 \<le> cumulative_success loaded respond \<and> 0 \<le> cumulative_failed loaded respond
       \<and> cumulative_success loaded respond + cumulative_failed loaded respond
            < 10 ^ int_max_str_digits"
  then show r: "fst (batch_import loaded respond) = Inr (0 < cumulative_success loaded respond)"
    by (intro batch_import_of_counts) simp_all
  show "batch_import_history_main loaded respond
           = (if 0 < cumulative_success loaded respond then 0 else 1)"
    by (simp add: batch_import_history_main_def r)
next
  show "total_success (snd (batch_import loaded respond)) = cumulative_success loaded respond"
    by (rule total_success_after_summary)
qed

text \<open>
  A run with one dropped batch succeeds; a run against an unreachable server, and a
  run without a document, exit with status 1.
\<close>

theorem run_succeeds_iff_some_import_succeeded_witness:
  "cumulative_success (Some (sample_document many_messages)) flaky_server = 70
   \<and> cumulative_failed (Some (sample_document many_messages)) flaky_server = 50
   \<and> fst (batch_import (Some (sample_document many_messages)) flaky_server) = Inr True
   \<and> batch_import_history_main (Some (sample_document many_messages)) flaky_server = 0
   \<and> cumulative_success (Some (sample_document many_messages)) unreachable_server = 0
   \<and> cumulative_failed (Some (sample_document many_messages)) unreachable_server = 120
   \<and> fst (batch_import (Some (sample_document many_messages)) unreachable_server) = Inr False
   \<and> batch_import_history_main (Some (sample_document many_messages)) unreachable_server = 1
   \<and> batch_import_history_main None flaky_server = 1"
proof -
  have d: "doc_messages (sample_document many_messages) = many_messages"
    by (simp add: sample_document_def)
  have c1: "cumulative_success (Some (sample_document many_messages)) flaky_server = 70"
    by (simp only: cumulative_success_def option.case d many_messages_batches upto_three)
       (simp add: flaky_counts)
  have f1: "cumulative_failed (Some (sample_document many_messages)) flaky_server = 50"
    by (simp only: cumulative_failed_def option.case d many_messages_batches upto_three)
       (simp add: flaky_counts)
  have c2: "cumulative_success (Some (sample_document many_messages)) unreachable_server = 0"
    by (simp only: cumulative_success_def option.case d many_messages_batches upto_three)
       (simp add: unreachable_counts)
  have f2: "cumulative_failed (Some (sample_document many_messages)) unreachable_server = 120"
    by (simp only: cumulative_failed_def option.case d many_messages_batches upto_three)
       (simp add: unreachable_failed_counts)
  have c3: "cumulative_success None flaky_server = 0"
    by (simp add: cumulative_success_def)
  have "(10::int) ^ 3 \<le> 10 ^ int_max_str_digits"
    by (rule power_increasing) (simp_all add: int_max_str_digits_def)
  then have b: "(120::int) < 10 ^ int_max_str_digits" by simp
  note A = run_succeeds_iff_some_import_succeeded [of "Some (sample_document many_messages)" flaky_server]
  note B = run_succeeds_iff_some_import_succeeded [of "Some (sample_document many_messages)" unreachable_server]
  note C = run_succeeds_iff_some_import_succeeded [of None flaky_server]
  from A have a1: "fst (batch_import (Some (sample_document many_messages)) flaky_server) = Inr True"
    and a2: "batch_import_history_main (Some (sample_document many_messages)) flaky_server = 0"
    by (simp_all add: c1 f1 b)
  from B have b1: "fst (batch_import (Some (sample_document many_messages)) unreachable_server) = Inr False"
    and b2: "batch_import_history_main (Some (sample_document many_messages)) unreachable_server = 1"
    by (simp_all add: c2 f2 b)
  from C have c: "batch_import_history_main None flaky_server = 1"
    by (simp add: c3)
  show ?thesis using c1 f1 a1 a2 c2 f2 b1 b2 c by blast
qed

text \<open>
  C8 as stated fails where the summary of the run raises. The script checks nothing
  about the numbers in the server's replies, and the lines that print the totals and
  compute the success rate stand outside every \<open>try\<close>. Against a server that answers
  the one batch of a one-message document with \<open>successful\<close> \<open>10 ^ 400\<close> and \<open>failed\<close>
  \<open>1 - 10 ^ 400\<close>, the successful imports add up to more than zero, yet the division
  \<open>total_success / (total_success + total_failed)\<close> raises OverflowError: the run is
  not declared successful and the process exits with status 1.
\<close>

theorem huge_counts_run_raises:
  "0 < cumulative_success (Some (sample_document [sample_message])) huge_server
   \<and> fst (batch_import (Some (sample_document [sample_message])) huge_server) = Inl OverflowError
   \<and> batch_import_history_main (Some (sample_document [sample_message])) huge_server = 1"
proof -
  have p: "\<not> unprintable 1" by (rule small_printable) simp
  have o: "true_divide_overflows huge_count 1"
    by (simp add: true_divide_overflows_def huge_count_def)
  have r: "fst (batch_import (Some (sample_document [sample_message])) huge_server)
             = Inl OverflowError"
    unfolding batch_import_def option.case Let_def total_success_is_cumulative
      total_failed_is_cumulative huge_cumulative
    using p o huge_count_printable by simp
  have "0 < cumulative_success (Some (sample_document [sample_message])) huge_server"
    by (simp add: huge_cumulative huge_count_bounds)
  moreover have "batch_import_history_main (Some (sample_document [sample_message])) huge_server = 1"
    by (simp add: batch_import_history_main_def r)
  ultimately show ?thesis using r by blast
qed

subsection \<open>What the parsing loop preserves\<close>

lemma parse_loop_invariant:
  assumes step: "\<And>s cm a b ms. P ms \<Longrightarrow> P (append_message env base s cm a b ms)"
    and init: "P msgs"
  shows "P (snd (snd (parse_loop env sp base i lines cm cs msgs)))"
  using init
proof (induction lines arbitrary: i cm cs msgs)
  case Nil
  then show ?case by simp
next
  case (Cons line rest)
  show ?case
  proof (cases "strip line = []")
    case True
    then show ?thesis using Cons by simp
  next
    case False
    show ?thesis
    proof (cases "detect_speaker_change sp line (i + 1) \<noteq> None
                  \<and> detect_speaker_change sp line (i + 1) \<noteq> cs")
      case True
      have "P (case cs of
                 Some s \<Rightarrow> if cm \<noteq> [] then
                     append_message env base s cm (int i + 1 - int (length cm)) (int i) msgs
                   else msgs
               | None \<Rightarrow> msgs)"
        using Cons.prems step by (simp split: option.split)
      then show ?thesis using False True Cons.IH by (simp add: Let_def)
    next
      case False': False
      then show ?thesis using False Cons by (auto simp: Let_def)
    qed
  qed
qed

lemma parse_conversation_invariant:
  assumes step: "\<And>s cm a b ms. P ms \<Longrightarrow> P (append_message env (now_at_start env - days 30) s cm a b ms)"
    and init: "P (messages self)" and empty: "P []"
  shows "P (fst (parse_conversation env self))"
proof -
  obtain lines out where rf: "read_file env self = (lines, out)" by (cases "read_file env self")
  show ?thesis
  proof (cases "lines = []")
    case True
    then show ?thesis using empty by (simp add: parse_conversation_def rf)
  next
    case False
    let ?base = "now_at_start env - days 30"
    obtain cm cs ms where pl:
      "parse_loop env (current_speaker self) ?base 0 lines [] None (messages self) = (cm, cs, ms)"
      by (cases "parse_loop env (current_speaker self) ?base 0 lines [] None (messages self)")
    have "P (snd (snd (parse_loop env (current_speaker self) ?base 0 lines [] None (messages self))))"
      using step init by (rule parse_loop_invariant)
    then have "P ms" by (simp add: pl)
    then have "P (case cs of
                 Some s \<Rightarrow> if cm \<noteq> [] then
                     append_message env ?base s cm (int (length lines) - int (length cm) + 1)
                       (int (length lines)) ms
                   else ms
               | None \<Rightarrow> ms)"
      using step by (simp split: option.split)
    then show ?thesis using False by (simp add: parse_conversation_def rf pl Let_def)
  qed
qed

lemma timestamps_spaced_append_message:
  "timestamps_spaced base ms \<Longrightarrow> timestamps_spaced base (append_message env base s cm a b ms)"
  by (auto simp: timestamps_spaced_def append_message_def Let_def nth_append less_Suc_eq)

lemma minutes_strict: "i < j \<Longrightarrow> minutes (int i * 2) < minutes (int j * 2)"
  by (simp add: minutes_def)

lemma append_message_keys:
  "(\<forall>m \<in> set ms. dom (metadata m) = parse_time_keys)
     \<Longrightarrow> (\<forall>m \<in> set (append_message env base s cm a b ms). dom (metadata m) = parse_time_keys)"
  by (auto simp: append_message_def Let_def parse_time_keys_def split: if_splits)

lemma parsed_messages_have_parse_time_keys:
  "\<forall>m \<in> set (fst (parse_conversation env (ConversationParser path))).
      dom (metadata m) = parse_time_keys"
proof (rule parse_conversation_invariant)
  show "\<forall>m \<in> set (append_message env (now_at_start env - days 30) s cm a b ms).
          dom (metadata m) = parse_time_keys"
    if "\<forall>m \<in> set ms. dom (metadata m) = parse_time_keys" for s cm a b ms
    using that by (rule append_message_keys)
qed (simp_all add: ConversationParser_def)

subsection \<open>The parser on concrete transcripts\<close>

lemmas text_defs = ascii_def strip_def lstrip_def rstrip_def isspace_def startswith_def
  endswith_def lstrip_chars_def rstrip_chars_def

lemmas detect_defs = detect_speaker_change_def aletheia_patterns_def name_colon_def
  is_upper_az_def is_lower_az_def

lemmas clean_defs = clean_message_def sub_line_number_def isdecimal_def decimal_ranges_def
  line_number_marker_def

lemma scenario_blank:
  "strip (ascii ''Hi, how are you?'') \<noteq> []"
  "strip (ascii ''I am doing well, thank you.'') \<noteq> []"
  "strip (ascii ''Google Search'') \<noteq> []"
  "strip (ascii ''That's an interesting question.'') \<noteq> []"
  by (simp_all add: text_defs)

lemma scenario_detect:
  "detect_speaker_change None (ascii ''Hi, how are you?'') (Suc 0) = Some Kai"
  "detect_speaker_change None (ascii ''I am doing well, thank you.'') (Suc (Suc 0)) = Some Aletheia"
  "detect_speaker_change None (ascii ''Google Search'') (Suc (Suc (Suc 0))) = Some System"
  "detect_speaker_change None (ascii ''That's an interesting question.'') (Suc (Suc (Suc (Suc 0)))) = Some Aletheia"
  by (simp_all add: detect_defs text_defs)

lemma scenario_clean:
  "clean_message (ascii ''Hi, how are you?'') = ascii ''Hi, how are you?''"
  "clean_message (ascii ''I am doing well, thank you.'') = ascii ''I am doing well, thank you.''"
  "clean_message (ascii ''Google Search'') = ascii ''Google Search''"
  "clean_message (ascii ''That's an interesting question.'') = ascii ''That's an interesting question.''"
  by (simp_all add: clean_defs text_defs)

lemma ascii_nonempty:
  "ascii ''Hi, how are you?'' \<noteq> []"
  "ascii ''I am doing well, thank you.'' \<noteq> []"
  "ascii ''Google Search'' \<noteq> []"
  "ascii ''That's an interesting question.'' \<noteq> []"
  by (simp_all add: ascii_def)

lemma scenario_read:
  "readlines env path = Some scenario_lines \<Longrightarrow>
     read_file env (ConversationParser path) = (scenario_lines, [])"
  by (simp add: read_file_def ConversationParser_def scenario_lines_def ascii_def rstrip_chars_def)

lemma scenario_roles:
  assumes "readlines env path = Some scenario_lines"
  shows "map role (fst (parse_conversation env (ConversationParser path)))
           = [Kai, Aletheia, System, Aletheia]"
proof -
  have rf: "read_file env (ConversationParser path) = (scenario_lines, [])"
    using assms by (rule scenario_read)
  have ne: "scenario_lines \<noteq> []" by (simp add: scenario_lines_def)
  have cs: "current_speaker (ConversationParser path) = None"
    and ms: "messages (ConversationParser path) = []"
    by (simp_all add: ConversationParser_def)
  show ?thesis
    unfolding parse_conversation_def rf prod.case
    by (simp add: ne cs ms)
       (simp add: scenario_lines_def scenario_blank scenario_detect scenario_clean
          ascii_nonempty append_message_def Let_def)
qed

lemma scenario_ids:
  assumes "readlines env path = Some scenario_lines"
  shows "map msg_id (fst (parse_conversation env (ConversationParser path)))
           = map (uuid4_at_message env) [0, Suc 0, Suc (Suc 0), Suc (Suc (Suc 0))]"
proof -
  have rf: "read_file env (ConversationParser path) = (scenario_lines, [])"
    using assms by (rule scenario_read)
  have ne: "scenario_lines \<noteq> []" by (simp add: scenario_lines_def)
  have cs: "current_speaker (ConversationParser path) = None"
    and ms: "messages (ConversationParser path) = []"
    by (simp_all add: ConversationParser_def)
  show ?thesis
    unfolding parse_conversation_def rf prod.case
    by (simp add: ne cs ms)
       (simp add: scenario_lines_def scenario_blank scenario_detect scenario_clean
          ascii_nonempty append_message_def Let_def)
qed

lemma pinned_run_reads: "readlines (pinned_run u) (ascii ''chat.txt'') = Some scenario_lines"
  by (simp add: pinned_run_def scenario_files_def)

lemma blank_line_read:
  "read_file blank_line_run (ConversationParser path) = (blank_line_lines, [])"
  by (simp add: read_file_def ConversationParser_def blank_line_run_def blank_line_lines_def
      ascii_def rstrip_chars_def)

lemma blank_detect:
  "detect_speaker_change None (ascii ''I am doing well, thank you.'') (Suc (Suc (Suc 0))) = Some Aletheia"
  by (simp add: detect_defs text_defs)

lemma blank_strip: "strip (ascii []) = []"
  by (simp add: text_defs)

text \<open>
  C3, as the code has it. On the four lines \<open>Hi, how are you?\<close>,
  \<open>I am doing well, thank you.\<close>, \<open>Google Search\<close>,
  \<open>That's an interesting question.\<close> \<open>parse_conversation\<close> emits four messages, not
  three: the \<open>Google Search\<close> line becomes a message of role system and is kept, and
  the last line opens a further message. The first message has role kai, the second
  role aletheia, the third role system, the fourth role aletheia.
\<close>

theorem scenario_emits_four_messages:
  assumes "readlines env path = Some scenario_lines"
  shows "length (fst (parse_conversation env (ConversationParser path))) = 4
    \<and> role (fst (parse_conversation env (ConversationParser path)) ! 0) = Kai
    \<and> role (fst (parse_conversation env (ConversationParser path)) ! 1) = Aletheia
    \<and> role (fst (parse_conversation env (ConversationParser path)) ! 2) = System
    \<and> role (fst (parse_conversation env (ConversationParser path)) ! 3) = Aletheia"
proof -
  let ?out = "fst (parse_conversation env (ConversationParser path))"
  have r: "map role ?out = [Kai, Aletheia, System, Aletheia]"
    using assms by (rule scenario_roles)
  then have len: "length ?out = 4" using length_map [of role ?out] by simp
  have "role (?out ! k) = [Kai, Aletheia, System, Aletheia] ! k" if "k < 4" for k
    using that len r nth_map [of k ?out role] by simp
  from this [of 0] this [of 1] this [of 2] this [of 3] len show ?thesis by simp
qed

theorem scenario_emits_four_messages_witness:
  "readlines (pinned_run uuids_a) (ascii ''chat.txt'') = Some scenario_lines
   \<and> length (fst (parse_conversation (pinned_run uuids_a) (ConversationParser (ascii ''chat.txt'')))) = 4
   \<and> role (fst (parse_conversation (pinned_run uuids_a) (ConversationParser (ascii ''chat.txt''))) ! 2) = System"
  using scenario_emits_four_messages [OF pinned_run_reads [of uuids_a]] pinned_run_reads [of uuids_a]
  by blast

text \<open>C3 as stated, with exactly three messages, fails on that transcript.\<close>

theorem scenario_not_three_messages:
  "\<not> (length (fst (parse_conversation (pinned_run uuids_a) (ConversationParser (ascii ''chat.txt'')))) = 3
      \<and> role (fst (parse_conversation (pinned_run uuids_a) (ConversationParser (ascii ''chat.txt''))) ! 0) = Kai
      \<and> role (fst (parse_conversation (pinned_run uuids_a) (ConversationParser (ascii ''chat.txt''))) ! 1) = Aletheia)"
proof -
  have "length (map role (fst (parse_conversation (pinned_run uuids_a) (ConversationParser (ascii ''chat.txt''))))) = 4"
    by (simp only: scenario_roles [OF pinned_run_reads]) simp
  then show ?thesis by simp
qed

subsection \<open>Timestamps\<close>

text \<open>
  The transcript of four lines parsed by a parser that may hold messages already: the
  run returns those messages first, and the four it appends are numbered on from them.
\<close>

lemma scenario_read_again:
  "readlines env (file_path self) = Some scenario_lines \<Longrightarrow>
     read_file env self = (scenario_lines, [])"
  by (simp add: read_file_def scenario_lines_def ascii_def rstrip_chars_def)

lemma scenario_timestamps:
  assumes "readlines env (file_path self) = Some scenario_lines"
    and "current_speaker self = None"
  shows "map timestamp (fst (parse_conversation env self))
           = map timestamp (messages self)
             @ map (\<lambda>k. now_at_start env - days 30 + minutes (int (length (messages self) + k) * 2))
                 [0, Suc 0, Suc (Suc 0), Suc (Suc (Suc 0))]"
proof -
  have rf: "read_file env self = (scenario_lines, [])"
    using assms(1) by (rule scenario_read_again)
  have ne: "scenario_lines \<noteq> []" by (simp add: scenario_lines_def)
  show ?thesis
    unfolding parse_conversation_def rf prod.case
    by (simp add: ne assms(2))
       (simp add: scenario_lines_def scenario_blank scenario_detect scenario_clean
          ascii_nonempty append_message_def Let_def minutes_def algebra_simps)
qed

lemma parser_after_scenario:
  assumes "readlines env (file_path self) = Some scenario_lines"
  shows "fst (snd (parse_conversation env self)) = self\<lparr>messages := fst (parse_conversation env self)\<rparr>"
proof -
  have rf: "read_file env self = (scenario_lines, [])"
    using assms(1) by (rule scenario_read_again)
  have ne: "scenario_lines \<noteq> []" by (simp add: scenario_lines_def)
  show ?thesis
    unfolding parse_conversation_def rf prod.case
    by (simp add: ne Let_def split: prod.splits)
qed

lemma reused_parser_state:
  "file_path reused_parser = ascii ''chat.txt''"
  "current_speaker reused_parser = None"
  "map timestamp (messages reused_parser)
     = [1700000000000000 - days 30, 1700000000000000 - days 30 + minutes 2,
        1700000000000000 - days 30 + minutes 4, 1700000000000000 - days 30 + minutes 6]"
proof -
  let ?new = "ConversationParser (ascii ''chat.txt'')"
  have fp: "file_path ?new = ascii ''chat.txt''" and cs: "current_speaker ?new = None"
    and ms: "messages ?new = []"
    by (simp_all add: ConversationParser_def)
  have rd: "readlines (pinned_run uuids_a) (file_path ?new) = Some scenario_lines"
    by (simp only: fp pinned_run_reads)
  have st: "reused_parser = ?new\<lparr>messages := fst (parse_conversation (pinned_run uuids_a) ?new)\<rparr>"
    unfolding reused_parser_def by (rule parser_after_scenario [OF rd])
  show "file_path reused_parser = ascii ''chat.txt''" by (simp add: st fp)
  show "current_speaker reused_parser = None" by (simp add: st cs)
  have "map timestamp (messages reused_parser)
          = map timestamp (fst (parse_conversation (pinned_run uuids_a) ?new))"
    by (simp add: st)
  also have "\<dots> = [1700000000000000 - days 30, 1700000000000000 - days 30 + minutes 2,
        1700000000000000 - days 30 + minutes 4, 1700000000000000 - days 30 + minutes 6]"
    by (simp only: scenario_timestamps [OF rd cs] ms) (simp add: pinned_run_def minutes_def)
  finally show "map timestamp (messages reused_parser)
     = [1700000000000000 - days 30, 1700000000000000 - days 30 + minutes 2,
        1700000000000000 - days 30 + minutes 4, 1700000000000000 - days 30 + minutes 6]" .
qed

lemma reused_parser_timestamps:
  "map timestamp (fst (parse_conversation later_run reused_parser))
     = [1700000000000000 - days 30, 1700000000000000 - days 30 + minutes 2,
        1700000000000000 - days 30 + minutes 4, 1700000000000000 - days 30 + minutes 6,
        1700000005000000 - days 30 + minutes 8, 1700000005000000 - days 30 + minutes 10,
        1700000005000000 - days 30 + minutes 12, 1700000005000000 - days 30 + minutes 14]"
proof -
  have rd: "readlines later_run (file_path reused_parser) = Some scenario_lines"
    by (simp add: reused_parser_state later_run_def scenario_files_def)
  have len: "length (messages reused_parser) = 4"
    using arg_cong [OF reused_parser_state(3), of length] by simp
  show ?thesis
    by (simp only: scenario_timestamps [OF rd reused_parser_state(2)] reused_parser_state(3) len)
       (simp add: later_run_def)
qed

text \<open>
  C5, as the code has it. In a run of \<open>parse_conversation\<close> on a newly constructed
  parser, which is what \<open>main\<close> runs, the message at position \<open>k\<close> of the result (counted
  from 0) has the timestamp \<open>base + k * 2 minutes\<close>, where \<open>base\<close> is the clock read once
  at the start of the run less 30 days; so of two emitted messages the later one has
  the strictly greater timestamp.
\<close>

theorem timestamps_two_minutes_apart:
  "(\<forall>k. k < length (fst (parse_conversation env (ConversationParser path))) \<longrightarrow>
        timestamp (fst (parse_conversation env (ConversationParser path)) ! k)
          = (now_at_start env - days 30) + minutes (int k * 2))
   \<and> (\<forall>i j. i < j \<and> j < length (fst (parse_conversation env (ConversationParser path))) \<longrightarrow>
        timestamp (fst (parse_conversation env (ConversationParser path)) ! i)
          < timestamp (fst (parse_conversation env (ConversationParser path)) ! j))"
proof -
  let ?out = "fst (parse_conversation env (ConversationParser path))"
  let ?base = "now_at_start env - days 30"
  have "timestamps_spaced ?base ?out"
  proof (rule parse_conversation_invariant)
    show "timestamps_spaced ?base (append_message env ?base s cm a b ms)"
      if "timestamps_spaced ?base ms" for s cm a b ms
      using that by (rule timestamps_spaced_append_message)
    show "timestamps_spaced ?base (messages (ConversationParser path))"
      by (simp add: timestamps_spaced_def ConversationParser_def)
    show "timestamps_spaced ?base []" by (simp add: timestamps_spaced_def)
  qed
  then have sp: "timestamp (?out ! k) = ?base + minutes (int k * 2)" if "k < length ?out" for k
    using that by (simp add: timestamps_spaced_def)
  have mono: "timestamp (?out ! i) < timestamp (?out ! j)" if "i < j \<and> j < length ?out" for i j
  proof -
    from that have "i < length ?out" and "j < length ?out" and "i < j" by simp_all
    then show ?thesis using sp [of i] sp [of j] minutes_strict [of i j] by simp
  qed
  show ?thesis using sp mono by blast
qed

theorem timestamps_two_minutes_apart_witness:
  "(3::nat) < length (fst (parse_conversation (pinned_run uuids_a) (ConversationParser (ascii ''chat.txt''))))
   \<and> timestamp (fst (parse_conversation (pinned_run uuids_a) (ConversationParser (ascii ''chat.txt''))) ! 3)
        = 1700000000000000 - days 30 + minutes 6
   \<and> timestamp (fst (parse_conversation (pinned_run uuids_a) (ConversationParser (ascii ''chat.txt''))) ! 2)
        < timestamp (fst (parse_conversation (pinned_run uuids_a) (ConversationParser (ascii ''chat.txt''))) ! 3)"
proof -
  let ?a = "fst (parse_conversation (pinned_run uuids_a) (ConversationParser (ascii ''chat.txt'')))"
  have "length (map role ?a) = 4"
    by (simp only: scenario_roles [OF pinned_run_reads]) simp
  then have len: "3 < length ?a" and len': "(2::nat) < 3 \<and> 3 < length ?a" by simp_all
  note T = timestamps_two_minutes_apart [of "pinned_run uuids_a" "ascii ''chat.txt''"]
  from T len have "timestamp (?a ! 3) = now_at_start (pinned_run uuids_a) - days 30 + minutes (int 3 * 2)"
    by blast
  then have "timestamp (?a ! 3) = 1700000000000000 - days 30 + minutes 6"
    by (simp add: pinned_run_def)
  moreover from T len' have "timestamp (?a ! 2) < timestamp (?a ! 3)" by blast
  ultimately show ?thesis using len by blast
qed

text \<open>
  C5 as stated, for every run, fails for a second run on the same parser object.
  \<open>self.messages\<close> is set in the constructor only, and the timestamp is computed from
  \<open>len(self.messages)\<close>: the second run returns the four messages of the first run
  again, with the timestamps of that run, and the first message it emits itself, at
  position 4, is eight minutes after its own base rather than at it.
\<close>

theorem reused_parser_timestamps_off_base:
  "length (fst (parse_conversation later_run reused_parser)) = 8
   \<and> timestamp (fst (parse_conversation later_run reused_parser) ! 0)
        = 1700000000000000 - days 30
   \<and> timestamp (fst (parse_conversation later_run reused_parser) ! 4)
        = 1700000005000000 - days 30 + minutes 8
   \<and> timestamp (fst (parse_conversation later_run reused_parser) ! 0)
        \<noteq> now_at_start later_run - days 30 + minutes (int 0 * 2)
   \<and> timestamp (fst (parse_conversation later_run reused_parser) ! 4)
        \<noteq> now_at_start later_run - days 30 + minutes (int 0 * 2)"
proof -
  let ?out = "fst (parse_conversation later_run reused_parser)"
  have len: "length ?out = 8"
    using arg_cong [OF reused_parser_timestamps, of length] by simp
  have t0: "timestamp (?out ! 0) = map timestamp ?out ! 0"
    and t4: "timestamp (?out ! 4) = map timestamp ?out ! 4"
    using len by simp_all
  have v0: "timestamp (?out ! 0) = 1700000000000000 - days 30"
    by (simp only: t0 reused_parser_timestamps) simp
  have v4: "timestamp (?out ! 4) = 1700000005000000 - days 30 + minutes 8"
    by (simp only: t4 reused_parser_timestamps) simp
  have b: "now_at_start later_run = 1700000005000000" by (simp add: later_run_def)
  have n0: "timestamp (?out ! 0) \<noteq> now_at_start later_run - days 30 + minutes (int 0 * 2)"
    by (simp add: v0 b minutes_def)
  have n4: "timestamp (?out ! 4) \<noteq> now_at_start later_run - days 30 + minutes (int 0 * 2)"
    by (simp add: v4 b minutes_def)
  show ?thesis using len v0 v4 n0 n4 by blast
qed

subsection \<open>Parsing the same input twice\<close>

lemma append_message_same_but_id_and_time:
  assumes "map without_id_and_imported_at ms1 = map without_id_and_imported_at ms2"
  shows "map without_id_and_imported_at (append_message env1 base s cm a b ms1)
       = map without_id_and_imported_at (append_message env2 base s cm a b ms2)"
proof -
  have "length ms1 = length ms2" using assms by (rule map_eq_imp_length_eq)
  then show ?thesis using assms
    by (simp add: append_message_def Let_def without_id_and_imported_at_def)
qed

lemma parse_loop_same_but_id_and_time:
  assumes "map without_id_and_imported_at ms1 = map without_id_and_imported_at ms2"
  shows "fst (parse_loop env1 sp base i lines cm cs ms1) = fst (parse_loop env2 sp base i lines cm cs ms2)
       \<and> fst (snd (parse_loop env1 sp base i lines cm cs ms1))
           = fst (snd (parse_loop env2 sp base i lines cm cs ms2))
       \<and> map without_id_and_imported_at (snd (snd (parse_loop env1 sp base i lines cm cs ms1)))
           = map without_id_and_imported_at (snd (snd (parse_loop env2 sp base i lines cm cs ms2)))"
  using assms
proof (induction lines arbitrary: i cm cs ms1 ms2)
  case Nil
  then show ?case by simp
next
  case (Cons line rest)
  show ?case
  proof (cases "strip line = []")
    case True
    then show ?thesis using Cons.IH [OF Cons.prems] by simp
  next
    case False
    show ?thesis
    proof (cases "detect_speaker_change sp line (i + 1) \<noteq> None
                  \<and> detect_speaker_change sp line (i + 1) \<noteq> cs")
      case True
      let ?f = "\<lambda>env ms. (case cs of
                 Some s \<Rightarrow> if cm \<noteq> [] then
                     append_message env base s cm (int i + 1 - int (length cm)) (int i) ms
                   else ms
               | None \<Rightarrow> ms)"
      have "map without_id_and_imported_at (?f env1 ms1) = map without_id_and_imported_at (?f env2 ms2)"
        using Cons.prems append_message_same_but_id_and_time by (simp split: option.split)
      from Cons.IH [OF this] show ?thesis using False True by (simp add: Let_def)
    next
      case False': False
      then show ?thesis using False Cons.IH [OF Cons.prems] by (auto simp: Let_def)
    qed
  qed
qed

text \<open>
  C2, as the code has it. Two runs of \<open>parse_conversation\<close> on newly constructed
  parsers that read the same lines and the same clock value at their start emit
  message sequences that are equal in every field other than the id and the
  \<open>imported_at\<close> entry of the metadata. The id is a new \<open>uuid4\<close> for every message of
  every run; no pinned clock determines it.
\<close>

theorem reparse_differs_only_in_id_and_import_time:
  assumes "readlines env1 path = readlines env2 path"
    and "now_at_start env1 = now_at_start env2"
  shows "map without_id_and_imported_at (fst (parse_conversation env1 (ConversationParser path)))
       = map without_id_and_imported_at (fst (parse_conversation env2 (ConversationParser path)))"
proof -
  let ?self = "ConversationParser path"
  let ?base = "now_at_start env1 - days 30"
  obtain lines out where rf1: "read_file env1 ?self = (lines, out)" by (cases "read_file env1 ?self")
  have rf2: "read_file env2 ?self = (lines, out)"
    using rf1 assms(1) by (simp add: read_file_def ConversationParser_def)
  show ?thesis
  proof (cases "lines = []")
    case True
    then show ?thesis by (simp add: parse_conversation_def rf1 rf2)
  next
    case False
    obtain cm1 cs1 ms1 where pl1:
      "parse_loop env1 (current_speaker ?self) ?base 0 lines [] None (messages ?self) = (cm1, cs1, ms1)"
      by (cases "parse_loop env1 (current_speaker ?self) ?base 0 lines [] None (messages ?self)")
    obtain cm2 cs2 ms2 where pl2:
      "parse_loop env2 (current_speaker ?self) ?base 0 lines [] None (messages ?self) = (cm2, cs2, ms2)"
      by (cases "parse_loop env2 (current_speaker ?self) ?base 0 lines [] None (messages ?self)")
    have "map without_id_and_imported_at (messages ?self) = map without_id_and_imported_at (messages ?self)"
      by simp
    from parse_loop_same_but_id_and_time [OF this, of env1 "current_speaker ?self" ?base 0 lines "[]" None env2]
    have eq: "cm1 = cm2" "cs1 = cs2"
      "map without_id_and_imported_at ms1 = map without_id_and_imported_at ms2"
      by (simp_all add: pl1 pl2)
    let ?f = "\<lambda>env ms. (case cs1 of
                 Some s \<Rightarrow> if cm1 \<noteq> [] then
                     append_message env ?base s cm1 (int (length lines) - int (length cm1) + 1)
                       (int (length lines)) ms
                   else ms
               | None \<Rightarrow> ms)"
    have "map without_id_and_imported_at (?f env1 ms1) = map without_id_and_imported_at (?f env2 ms2)"
      using eq(3) append_message_same_but_id_and_time by (simp split: option.split)
    moreover have "fst (parse_conversation env1 ?self) = ?f env1 ms1"
      using False by (simp add: parse_conversation_def rf1 pl1 Let_def)
    moreover have pl2':
      "parse_loop env2 (current_speaker ?self) ?base 0 lines [] None (messages ?self) = (cm1, cs1, ms2)"
      using pl2 eq(1,2) by simp
    have "fst (parse_conversation env2 ?self) = ?f env2 ms2"
      using False
      by (simp add: parse_conversation_def rf2 assms(2) [symmetric] pl2' Let_def)
    ultimately show ?thesis by simp
  qed
qed

theorem reparse_differs_only_in_id_and_import_time_witness:
  "readlines (pinned_run uuids_a) (ascii ''chat.txt'') = readlines (pinned_run uuids_b) (ascii ''chat.txt'')
   \<and> now_at_start (pinned_run uuids_a) = now_at_start (pinned_run uuids_b)
   \<and> map without_id_and_imported_at
        (fst (parse_conversation (pinned_run uuids_a) (ConversationParser (ascii ''chat.txt''))))
     = map without_id_and_imported_at
        (fst (parse_conversation (pinned_run uuids_b) (ConversationParser (ascii ''chat.txt''))))
   \<and> length (fst (parse_conversation (pinned_run uuids_a) (ConversationParser (ascii ''chat.txt'')))) = 4"
proof -
  have h1: "readlines (pinned_run uuids_a) (ascii ''chat.txt'') = readlines (pinned_run uuids_b) (ascii ''chat.txt'')"
    by (simp add: pinned_run_def)
  have h2: "now_at_start (pinned_run uuids_a) = now_at_start (pinned_run uuids_b)"
    by (simp add: pinned_run_def)
  have "length (map role (fst (parse_conversation (pinned_run uuids_a) (ConversationParser (ascii ''chat.txt''))))) = 4"
    by (simp only: scenario_roles [OF pinned_run_reads]) simp
  then show ?thesis
    using reparse_differs_only_in_id_and_import_time [OF h1 h2] h1 h2 by simp
qed

text \<open>
  C2 as stated fails: two runs on the same transcript with the same clock throughout,
  which draw different ids, differ in a field other than \<open>imported_at\<close>.
\<close>

theorem reparse_ids_differ:
  "readlines (pinned_run uuids_a) = readlines (pinned_run uuids_b)
   \<and> now_at_start (pinned_run uuids_a) = now_at_start (pinned_run uuids_b)
   \<and> now_at_message (pinned_run uuids_a) = now_at_message (pinned_run uuids_b)
   \<and> map without_imported_at
        (fst (parse_conversation (pinned_run uuids_a) (ConversationParser (ascii ''chat.txt''))))
     \<noteq> map without_imported_at
        (fst (parse_conversation (pinned_run uuids_b) (ConversationParser (ascii ''chat.txt''))))"
proof -
  let ?a = "fst (parse_conversation (pinned_run uuids_a) (ConversationParser (ascii ''chat.txt'')))"
  let ?b = "fst (parse_conversation (pinned_run uuids_b) (ConversationParser (ascii ''chat.txt'')))"
  have ida: "map msg_id ?a = map uuids_a [0, Suc 0, Suc (Suc 0), Suc (Suc (Suc 0))]"
    using scenario_ids [OF pinned_run_reads [of uuids_a]] by (simp add: pinned_run_def)
  have idb: "map msg_id ?b = map uuids_b [0, Suc 0, Suc (Suc 0), Suc (Suc (Suc 0))]"
    using scenario_ids [OF pinned_run_reads [of uuids_b]] by (simp add: pinned_run_def)
  have "map msg_id ?a \<noteq> map msg_id ?b"
    by (simp only: ida idb) (simp add: uuids_a_def uuids_b_def ascii_def)
  moreover have "map msg_id (map without_imported_at ms) = map msg_id ms" for ms
    by (simp add: without_imported_at_def comp_def)
  ultimately have "map without_imported_at ?a \<noteq> map without_imported_at ?b"
    by metis
  then show ?thesis by (simp add: pinned_run_def)
qed

subsection \<open>Line ranges\<close>

text \<open>
  C4 fails on the code. On the three lines \<open>Hi, how are you?\<close>, an empty line,
  \<open>I am doing well, thank you.\<close> the first message has the first line as its content,
  but its metadata gives \<open>line_start = 2\<close> and \<open>line_end = 2\<close>: the loop skips the empty
  line without adding it to \<open>current_message\<close>, and computes the range from the index
  of the line that ends the turn and the number of lines collected.
\<close>

theorem line_range_wrong_after_blank_line:
  "length (fst (parse_conversation blank_line_run (ConversationParser (ascii ''chat.txt'')))) = 2
   \<and> content (fst (parse_conversation blank_line_run (ConversationParser (ascii ''chat.txt''))) ! 0)
        = blank_line_lines ! 0
   \<and> metadata (fst (parse_conversation blank_line_run (ConversationParser (ascii ''chat.txt''))) ! 0)
        ''line_start'' = Some (MInt 2)
   \<and> metadata (fst (parse_conversation blank_line_run (ConversationParser (ascii ''chat.txt''))) ! 0)
        ''line_end'' = Some (MInt 2)"
proof -
  have ne: "blank_line_lines \<noteq> []" by (simp add: blank_line_lines_def)
  have cs: "current_speaker (ConversationParser (ascii ''chat.txt'')) = None"
    and ms: "messages (ConversationParser (ascii ''chat.txt'')) = []"
    by (simp_all add: ConversationParser_def)
  show ?thesis
    unfolding parse_conversation_def blank_line_read prod.case
    by (simp add: ne cs ms)
       (simp add: blank_line_lines_def scenario_blank scenario_detect scenario_clean blank_detect
          blank_strip ascii_nonempty append_message_def Let_def)
qed

subsection \<open>A source file that cannot be read\<close>

text \<open>
  C9 fails on the code in its last part. When the source file cannot be read,
  \<open>read_file\<close> prints the error and returns no lines, \<open>parse_conversation\<close> returns the
  empty list and \<open>main\<close> writes no file; but \<open>main\<close> then prints that no messages were
  parsed and returns, so the exit status is 0.
\<close>

theorem missing_file_exits_with_status_zero:
  "read_file missing_file_run (ConversationParser (ascii ''missing.txt'')) = ([], [ErrorReadingFile])
   \<and> fst (parse_conversation missing_file_run (ConversationParser (ascii ''missing.txt''))) = []
   \<and> conversation_parser_main missing_file_run [ascii ''conversation_parser.py'', ascii ''missing.txt'']
       = \<lparr>exit_status = 0, printed = [ErrorReadingFile, NoMessagesParsed], files_written = []\<rparr>"
proof -
  have rf: "read_file missing_file_run (ConversationParser (ascii ''missing.txt'')) = ([], [ErrorReadingFile])"
    by (simp add: read_file_def missing_file_run_def ConversationParser_def)
  have pc: "parse_conversation missing_file_run (ConversationParser (ascii ''missing.txt''))
             = ([], ConversationParser (ascii ''missing.txt''), [ErrorReadingFile])"
    by (simp add: parse_conversation_def rf)
  have "[ascii ''conversation_parser.py'', ascii ''missing.txt''] ! 1 = ascii ''missing.txt''"
    by simp
  then have "conversation_parser_main missing_file_run [ascii ''conversation_parser.py'', ascii ''missing.txt'']
       = \<lparr>exit_status = 0, printed = [ErrorReadingFile, NoMessagesParsed], files_written = []\<rparr>"
    by (simp add: conversation_parser_main_def Let_def pc)
  then show ?thesis using rf pc by simp
qed

end
